theory Spec2Isabelle
  imports Main "HOL-Library.Word"
begin

section \<open>network-watchdog: the per-target monitoring engine\<close>

text \<open>
  A shallow embedding of the watchdog's Go source: the probers \<open>pingProbe\<close> and
  \<open>requestProbe\<close>, the remediator \<open>resetServer\<close>, the monitor loop \<open>loopCheck\<close> and
  the validation done by \<open>main\<close>, and after them the earlier program of \<open>main.go\<close>, which
  watches a single target. Everything outside the program (the network, the remote shell,
  the file system, the timer and the stop channel) is an explicit parameter: a record of
  the answers the libraries give, and the list of the cases the loop's \<open>select\<close> takes.
  Every function also returns the calls it made to the outside, in order.
\<close>

subsection \<open>Go values\<close>

text \<open>
  Go's \<open>int\<close> is 64 bits wide on the 64-bit targets the program is built for:
  \<open>counter++\<close> wraps around and \<open>>=\<close> compares two's-complement values (\<open>\<le>s\<close>, read
  through \<open>sint\<close>). \<open>time.Duration\<close> is an \<open>int64\<close> count of nanoseconds.
\<close>

type_synonym go_int = "64 word"
type_synonym Duration = "64 word"

definition Second :: Duration where
  "Second = 1000000000"

definition MaxInt :: go_int where
  "MaxInt = 9223372036854775807"

text \<open>
  A Go \<open>error\<close> value is \<open>error option\<close>, \<open>None\<close> being \<open>nil\<close>. The program declares
  two errors of its own; every other error (made by \<open>errors.New\<close> in \<open>main\<close>, or coming
  out of a library) is kept by its message.
\<close>

datatype error =
    ErrorStatusCodeIsNot204
  | ErrorPingProbeUnfinished
  | errors_New string

text \<open>A call either returns or panics; a panic in a monitor's goroutine ends the process.\<close>

datatype 'a outcome = Panic string | Return 'a

subsection \<open>The functions of package \<open>strings\<close> the program calls\<close>

text \<open>Strings are byte sequences, as in Go; indices count bytes.\<close>

definition HasPrefix :: "string \<Rightarrow> string \<Rightarrow> bool" where
  "HasPrefix s pre = (length pre \<le> length s \<and> take (length pre) s = pre)"

text \<open>\<open>Index s sep\<close>: the first position where \<open>sep\<close> occurs in \<open>s\<close>, \<open>None\<close> for Go's -1.\<close>

fun Index :: "string \<Rightarrow> string \<Rightarrow> nat option" where
  "Index [] sep = (if sep = [] then Some 0 else None)"
| "Index (c # s) sep =
     (if HasPrefix (c # s) sep then Some 0
      else (case Index s sep of None \<Rightarrow> None | Some i \<Rightarrow> Some (Suc i)))"

text \<open>
  \<open>SplitN s sep n\<close> for a non-empty separator and \<open>n \<ge> 0\<close>: at most \<open>n\<close> pieces, the
  last one the unsplit remainder.
\<close>

fun SplitN :: "string \<Rightarrow> string \<Rightarrow> nat \<Rightarrow> string list" where
  "SplitN s sep 0 = []"
| "SplitN s sep (Suc 0) = [s]"
| "SplitN s sep (Suc (Suc n)) =
     (case Index s sep of
        None \<Rightarrow> [s]
      | Some m \<Rightarrow> take m s # SplitN (drop (m + length sep) s) sep (Suc n))"

text \<open>\<open>LastIndex s sub\<close>: the last position where \<open>sub\<close> occurs in \<open>s\<close>, or -1.\<close>

definition LastIndex :: "string \<Rightarrow> string \<Rightarrow> int" where
  "LastIndex s sub =
     (case filter (\<lambda>i. HasPrefix (drop i s) sub) (rev [0 ..< Suc (length s)]) of
        [] \<Rightarrow> - 1
      | i # _ \<Rightarrow> int i)"

subsection \<open>Configuration\<close>

record Server =
  Hostname :: string
  Username :: string
  Password :: string
  KeyFile :: string
  ResetCommand :: string

record Client =
  Client_Timeout :: Duration

record ProbeConfig =
  Name :: string
  ProbeURL :: string
  Timeout :: string
  Interval :: string
  DownTimes :: go_int
  Server :: Server
  timeout :: Duration
  interval :: Duration
  httpClient :: "Client option"

record Config =
  Probes :: "ProbeConfig list"

definition DefaultGenerate204ProbeURL :: string where
  "DefaultGenerate204ProbeURL = ''https://www.google.com/generate_204''"

subsection \<open>The outside world\<close>

datatype AuthMethod = ssh_Password string | ssh_PublicKeys string

text \<open>
  \<open>HostKeyCallback\<close> is the constant function returning \<open>nil\<close>: \<open>True\<close> says that
  every host key is accepted.
\<close>

record ClientConfig =
  User :: string
  Auth :: "AuthMethod list"
  HostKeyCallback :: bool

record Pinger =
  Pinger_addr :: string
  Pinger_privileged :: bool
  Pinger_Count :: go_int
  Pinger_Timeout :: Duration
  Pinger_OnRecv :: bool
  Pinger_OnFinish :: bool
  PacketsRecv :: go_int

record Response =
  StatusCode :: go_int
  Body :: "string option"

definition StatusOK :: go_int where
  "StatusOK = 200"

definition StatusNoContent :: go_int where
  "StatusNoContent = 204"

definition MethodGet :: string where
  "MethodGet = ''GET''"

text \<open>A value printed by \<open>log.Println\<close>.\<close>

datatype arg = Str string | Err error | Num go_int

text \<open>The calls a function makes to the outside, with their arguments.\<close>

datatype effect =
    log_Println "arg list"
  | ioutil_ReadFile string
  | ssh_ParsePrivateKey string
  | ssh_Dial string string ClientConfig
  | client_NewSession
  | session_Run string
  | session_Close
  | ping_NewPinger string
  | pinger_Run Pinger
  | http_NewRequest string string
  | httpClient_Do Client string
  | http_Get string
  | Body_ReadAll_Close

text \<open>The library a call goes to.\<close>

datatype library = Logging | Files | Ssh | Ping | Http

fun library_of :: "effect \<Rightarrow> library" where
  "library_of (log_Println a) = Logging"
| "library_of (ioutil_ReadFile f) = Files"
| "library_of (ssh_ParsePrivateKey b) = Ssh"
| "library_of (ssh_Dial n a c) = Ssh"
| "library_of client_NewSession = Ssh"
| "library_of (session_Run c) = Ssh"
| "library_of session_Close = Ssh"
| "library_of (ping_NewPinger t) = Ping"
| "library_of (pinger_Run p) = Ping"
| "library_of (http_NewRequest m u) = Http"
| "library_of (httpClient_Do c u) = Http"
| "library_of (http_Get u) = Http"
| "library_of Body_ReadAll_Close = Http"

text \<open>The calls, among those of a list, that go to one of the libraries \<open>A\<close>, in order.\<close>

definition calls_to :: "library set \<Rightarrow> effect list \<Rightarrow> effect list" where
  "calls_to A fx = filter (\<lambda>x. library_of x \<in> A) fx"

text \<open>
  What the libraries answer during one tick. Each answer may depend on the arguments
  of the call.
\<close>

record world =
  on_ReadFile :: "string \<Rightarrow> error + string"
  on_ParsePrivateKey :: "string \<Rightarrow> error + string"
  on_Dial :: "string \<Rightarrow> string \<Rightarrow> ClientConfig \<Rightarrow> error option"
  on_NewSession :: "error option"
  on_Run :: "string \<Rightarrow> string \<times> error option"
  on_NewPinger :: "string \<Rightarrow> error option"
  on_PingerRun :: "Pinger \<Rightarrow> go_int"
  on_NewRequest :: "string \<Rightarrow> string \<Rightarrow> error option"
  on_Do :: "Client \<Rightarrow> string \<Rightarrow> error + Response"
  on_Get :: "string \<Rightarrow> error + Response"

subsection \<open>The remediator\<close>

definition PublicKeyFile :: "world \<Rightarrow> string \<Rightarrow> (error + AuthMethod) \<times> effect list" where
  "PublicKeyFile w file =
     (case on_ReadFile w file of
        Inl err \<Rightarrow> (Inl err, [ioutil_ReadFile file])
      | Inr buffer \<Rightarrow>
          (case on_ParsePrivateKey w buffer of
             Inl err \<Rightarrow> (Inl err, [ioutil_ReadFile file, ssh_ParsePrivateKey buffer])
           | Inr key \<Rightarrow>
               (Inr (ssh_PublicKeys key), [ioutil_ReadFile file, ssh_ParsePrivateKey buffer])))"

text \<open>
  \<open>resetServer\<close> returns the captured output and the error, as the Go function does.
  The session is closed by the \<open>defer\<close> once it exists.
\<close>

definition resetServer :: "world \<Rightarrow> ProbeConfig \<Rightarrow> (string \<times> error option) \<times> effect list" where
  "resetServer w conf =
     (let method0 = (if Password (Server conf) \<noteq> [] then [ssh_Password (Password (Server conf))] else [])
      in case (if KeyFile (Server conf) \<noteq> []
               then (case PublicKeyFile w (KeyFile (Server conf)) of
                       (Inl err, fx) \<Rightarrow> (Inl err, fx)
                     | (Inr authMethod, fx) \<Rightarrow> (Inr (method0 @ [authMethod]), fx))
               else (Inr method0, [])) of
           (Inl err, fx) \<Rightarrow> (([], Some err), fx)
         | (Inr method, fx) \<Rightarrow>
             (let config = \<lparr>User = Username (Server conf), Auth = method, HostKeyCallback = True\<rparr>;
                  addr = (if 0 \<le> LastIndex (Hostname (Server conf)) '':''
                          then Hostname (Server conf)
                          else Hostname (Server conf) @ '':22'')
              in case on_Dial w ''tcp'' addr config of
                   Some err \<Rightarrow> (([], Some err), fx @ [ssh_Dial ''tcp'' addr config])
                 | None \<Rightarrow>
                     (case on_NewSession w of
                        Some err \<Rightarrow>
                          (([], Some err), fx @ [ssh_Dial ''tcp'' addr config, client_NewSession])
                      | None \<Rightarrow>
                          (on_Run w (ResetCommand (Server conf)),
                           fx @ [ssh_Dial ''tcp'' addr config, client_NewSession,
                                 session_Run (ResetCommand (Server conf)), session_Close]))))"

subsection \<open>The probers\<close>

text \<open>
  \<open>verbose\<close> is the program's global flag. \<open>pingProbe\<close> panics on a probe URL without
  a space; otherwise it returns \<open>nil\<close> or an error. The pinger's callbacks print
  inside the library: the model records only whether they are installed.
\<close>

definition pingProbe :: "bool \<Rightarrow> world \<Rightarrow> ProbeConfig \<Rightarrow> error option outcome \<times> effect list" where
  "pingProbe verbose w conf =
     (let parts = SplitN (ProbeURL conf) '' '' 2
      in if length parts < 2 then (Panic ''malformed ping probe url'', [])
         else
           (let target = parts ! 1
            in case on_NewPinger w target of
                 Some err \<Rightarrow> (Return (Some err), [ping_NewPinger target])
               | None \<Rightarrow>
                   (let pinger = \<lparr>Pinger_addr = target, Pinger_privileged = True,
                                  Pinger_Count = 3, Pinger_Timeout = 5 * Second,
                                  Pinger_OnRecv = verbose, Pinger_OnFinish = verbose,
                                  PacketsRecv = 0\<rparr>;
                        ran = pinger\<lparr>PacketsRecv := on_PingerRun w pinger\<rparr>
                    in if PacketsRecv ran <s Pinger_Count ran
                       then (Return (Some ErrorPingProbeUnfinished),
                             [ping_NewPinger target, pinger_Run pinger])
                       else (Return None, [ping_NewPinger target, pinger_Run pinger]))))"

text \<open>
  \<open>requestProbe\<close> creates the HTTP client on first use and stores it in the
  configuration, so it returns the configuration too.
\<close>

definition requestProbe :: "world \<Rightarrow> ProbeConfig \<Rightarrow> (error option \<times> ProbeConfig) \<times> effect list" where
  "requestProbe w conf =
     (case on_NewRequest w MethodGet (ProbeURL conf) of
        Some err \<Rightarrow> ((Some err, conf), [http_NewRequest MethodGet (ProbeURL conf)])
      | None \<Rightarrow>
          (let (client, conf1) =
                 (case httpClient conf of
                    None \<Rightarrow> (\<lparr>Client_Timeout = timeout conf\<rparr>,
                             conf\<lparr>httpClient := Some \<lparr>Client_Timeout = timeout conf\<rparr>\<rparr>)
                  | Some c \<Rightarrow> (c, conf));
               fx = [http_NewRequest MethodGet (ProbeURL conf), httpClient_Do client (ProbeURL conf)]
           in case on_Do w client (ProbeURL conf) of
                Inl err \<Rightarrow> ((Some err, conf1), fx)
              | Inr resp \<Rightarrow>
                  (let err = None;
                       fx1 = (if Body resp \<noteq> None then fx @ [Body_ReadAll_Close] else fx)
                   in if StatusCode resp = StatusOK then ((None, conf1), fx1)
                      else if StatusCode resp \<noteq> StatusNoContent
                      then ((Some ErrorStatusCodeIsNot204, conf1), fx1)
                      else ((err, conf1), fx1))))"

subsection \<open>The monitor loop\<close>

text \<open>
  The variables \<open>loopCheck\<close> carries from one iteration to the next; \<open>conf\<close> is the
  pointer's target.
\<close>

record loop_vars =
  lv_conf :: ProbeConfig
  lv_counter :: go_int
  lv_err :: "error option"

datatype prober = ICMP | HTTP

text \<open>
  What one tick did: the prober it called and the result, the value of \<open>counter\<close> on
  entry, after the probe step (line 226) and on exit, the result of \<open>resetServer\<close> when it
  was called, and the calls to the outside in order.
\<close>

record tick_obs =
  obs_prober :: prober
  obs_probe :: "error option"
  obs_before :: go_int
  obs_probed :: go_int
  obs_reset :: "(string \<times> error option) option"
  obs_after :: go_int
  obs_effects :: "effect list"

text \<open>
  The body of \<open>case <-ticker.C\<close>, in two parts: \<open>probeStep\<close> is the choice of the
  prober (lines 212 to 216), \<open>tick\<close> the whole body.
\<close>

definition probeStep :: "bool \<Rightarrow> world \<Rightarrow> ProbeConfig \<Rightarrow> (prober \<times> error option \<times> ProbeConfig \<times> effect list) outcome" where
  "probeStep verbose w conf =
     (if HasPrefix (ProbeURL conf) ''ping ''
      then (case pingProbe verbose w conf of
              (Panic m, fx) \<Rightarrow> Panic m
            | (Return err, fx) \<Rightarrow> Return (ICMP, err, conf, fx))
      else (case requestProbe w conf of
              ((err, conf1), fx) \<Rightarrow> Return (HTTP, err, conf1, fx)))"

definition tick :: "bool \<Rightarrow> world \<Rightarrow> loop_vars \<Rightarrow> (loop_vars \<times> tick_obs) outcome" where
  "tick verbose w v =
     (let conf = lv_conf v; counter = lv_counter v
      in case probeStep verbose w conf of
           Panic m \<Rightarrow> Panic m
         | Return (p, err, conf1, fx1) \<Rightarrow>
             (let (counter1, fx2) =
                    (case err of
                       Some e \<Rightarrow>
                         (counter + 1,
                          [log_Println [Str ''server'', Str (Name conf1), Str ''probe check error:'',
                                        Err e, Str ''counter:'', Num (counter + 1)]])
                     | None \<Rightarrow>
                         (0, if verbose
                             then [log_Println [Str ''server'', Str (Name conf1), Str ''probe check success'']]
                             else []))
              in if DownTimes conf1 \<le>s counter1
                 then
                   (let ((s, err2), fx3) = resetServer w conf1;
                        (counter2, fx4) =
                          (case err2 of
                             None \<Rightarrow> (0, [])
                           | Some e \<Rightarrow>
                               (counter1,
                                [log_Println [Str ''resetting server'', Str (Name conf1), Str ''error:'', Err e]]))
                    in Return
                         (\<lparr>lv_conf = conf1, lv_counter = counter2, lv_err = err2\<rparr>,
                          \<lparr>obs_prober = p, obs_probe = err, obs_before = counter,
                           obs_probed = counter1, obs_reset = Some (s, err2), obs_after = counter2,
                           obs_effects =
                             fx1 @ fx2 @ [log_Println [Str ''resetting server'', Str (Name conf1), Str ''...'']]
                             @ fx3 @ [log_Println [Str s]] @ fx4\<rparr>))
                 else
                   Return
                     (\<lparr>lv_conf = conf1, lv_counter = counter1, lv_err = err\<rparr>,
                      \<lparr>obs_prober = p, obs_probe = err, obs_before = counter,
                       obs_probed = counter1, obs_reset = None, obs_after = counter1,
                       obs_effects = fx1 @ fx2\<rparr>)))"

text \<open>
  The loop blocks in \<open>select\<close> until one of its two channels is ready. A run is given by
  the cases the \<open>select\<close> takes, in order: \<open>stopCh\<close> once the stop channel is closed and
  chosen, \<open>ticker_C\<close> for a tick, with the libraries' answers during that tick. The loop
  is \<open>Exited\<close> after \<open>break loop\<close> and \<open>Running\<close> (blocked in \<open>select\<close>) when the cases
  given are used up.
\<close>

datatype select_case = stopCh | ticker_C world

datatype status = Running | Exited

fun loop :: "bool \<Rightarrow> loop_vars \<Rightarrow> select_case list \<Rightarrow> (status \<times> loop_vars \<times> tick_obs list) outcome" where
  "loop verbose v [] = Return (Running, v, [])"
| "loop verbose v (stopCh # cs) = Return (Exited, v, [])"
| "loop verbose v (ticker_C w # cs) =
     (case tick verbose w v of
        Panic m \<Rightarrow> Panic m
      | Return (v1, ob) \<Rightarrow>
          (case loop verbose v1 cs of
             Panic m \<Rightarrow> Panic m
           | Return (st, v2, obs) \<Rightarrow> Return (st, v2, ob # obs)))"

text \<open>
  \<open>time.NewTicker\<close> panics on a duration that is not positive. The loop starts with
  \<open>counter = 0\<close> and \<open>err = nil\<close>. The line logged before the loop belongs to no tick
  and is left out.
\<close>

definition loopCheck :: "bool \<Rightarrow> ProbeConfig \<Rightarrow> select_case list \<Rightarrow> (status \<times> loop_vars \<times> tick_obs list) outcome" where
  "loopCheck verbose conf cs =
     (if interval conf \<le>s 0 then Panic ''non-positive interval for NewTicker''
      else loop verbose \<lparr>lv_conf = conf, lv_counter = 0, lv_err = None\<rparr> cs)"

subsection \<open>Startup\<close>

text \<open>
  What \<open>main\<close> is given: the \<open>-config\<close> flag and the answers of the file system, the
  YAML decoder and \<open>time.ParseDuration\<close>.
\<close>

record startup =
  confFilePath :: string
  on_Open :: "string \<Rightarrow> error option"
  on_ReadAll :: "error + string"
  on_Unmarshal :: "string \<Rightarrow> error + Config"
  on_ParseDuration :: "string \<Rightarrow> error + Duration"

text \<open>
  \<open>main\<close> ends the process with the usage text (\<open>os.Exit(1)\<close>) or through
  \<open>log.Fatal\<close>, or starts one \<open>loopCheck\<close> per probe.
\<close>

datatype main_result = Exit1 | Fatal error | Monitoring "ProbeConfig list"

text \<open>The loop \<open>for i := range conf.Probes\<close>: defaults, durations, the threshold.\<close>

fun prepareProbes :: "(string \<Rightarrow> error + Duration) \<Rightarrow> ProbeConfig list \<Rightarrow> error + ProbeConfig list" where
  "prepareProbes pd [] = Inr []"
| "prepareProbes pd (p # ps) =
     (let p1 = (if Name p = [] then p\<lparr>Name := Hostname (Server p)\<rparr> else p);
          p2 = (if ProbeURL p1 = [] then p1\<lparr>ProbeURL := DefaultGenerate204ProbeURL\<rparr> else p1)
      in case pd (Timeout p2) of
           Inl err \<Rightarrow> Inl err
         | Inr t \<Rightarrow>
             (case pd (Interval p2) of
                Inl err \<Rightarrow> Inl err
              | Inr i \<Rightarrow>
                  (let p3 = p2\<lparr>timeout := t, interval := i\<rparr>
                   in if DownTimes p3 \<le>s 0 then Inl (errors_New ''invalid down times'')
                      else (case prepareProbes pd ps of
                              Inl err \<Rightarrow> Inl err
                            | Inr ps1 \<Rightarrow> Inr (p3 # ps1)))))"

definition main :: "startup \<Rightarrow> main_result" where
  "main su =
     (if confFilePath su = [] then Exit1
      else case on_Open su (confFilePath su) of
             Some err \<Rightarrow> Fatal err
           | None \<Rightarrow>
               (case on_ReadAll su of
                  Inl err \<Rightarrow> Fatal err
                | Inr data \<Rightarrow>
                    (case on_Unmarshal su data of
                       Inl err \<Rightarrow> Fatal err
                     | Inr conf \<Rightarrow>
                         (if length (Probes conf) \<le> 0 then Fatal (errors_New ''no probes configured'')
                          else (case prepareProbes (on_ParseDuration su) (Probes conf) of
                                  Inl err \<Rightarrow> Fatal err
                                | Inr ps \<Rightarrow> Monitoring ps)))))"

subsection \<open>The single-target program of \<open>main.go\<close>\<close>

text \<open>
  \<open>src/main.go\<close> is the program for one target: one global configuration, a probe of
  the fixed URL that accepts status 204 only, password authentication, and a loop over
  the ticks with no stop channel. Its declarations carry a prime here; the configuration,
  a global variable there, is a parameter.
\<close>

record Server' =
  Hostname' :: string
  Username' :: string
  Password' :: string
  ResetCommand' :: string

record Config' =
  Interval' :: string
  DownTimes' :: go_int
  interval' :: Duration
  Server' :: Server'

definition Generate204URL :: string where
  "Generate204URL = ''https://www.google.com/generate_204''"

definition resetServer' :: "world \<Rightarrow> Config' \<Rightarrow> (string \<times> error option) \<times> effect list" where
  "resetServer' w conf =
     (let config = \<lparr>User = Username' (Server' conf),
                    Auth = [ssh_Password (Password' (Server' conf))], HostKeyCallback = True\<rparr>;
          addr = (if 0 \<le> LastIndex (Hostname' (Server' conf)) '':''
                  then Hostname' (Server' conf)
                  else Hostname' (Server' conf) @ '':22'')
      in case on_Dial w ''tcp'' addr config of
           Some err \<Rightarrow> (([], Some err), [ssh_Dial ''tcp'' addr config])
         | None \<Rightarrow>
             (case on_NewSession w of
                Some err \<Rightarrow> (([], Some err), [ssh_Dial ''tcp'' addr config, client_NewSession])
              | None \<Rightarrow>
                  (on_Run w (ResetCommand' (Server' conf)),
                   [ssh_Dial ''tcp'' addr config, client_NewSession,
                    session_Run (ResetCommand' (Server' conf)), session_Close])))"

definition request204 :: "world \<Rightarrow> error option \<times> effect list" where
  "request204 w =
     (case on_Get w Generate204URL of
        Inl err \<Rightarrow> (Some err, [http_Get Generate204URL])
      | Inr resp \<Rightarrow>
          (let err = None;
               fx = (if Body resp \<noteq> None then [http_Get Generate204URL, Body_ReadAll_Close]
                     else [http_Get Generate204URL])
           in if StatusCode resp \<noteq> StatusNoContent then (Some ErrorStatusCodeIsNot204, fx)
              else (err, fx)))"

text \<open>The body of \<open>for range ticker.C\<close>: the new counter and what the tick did.\<close>

definition tick' :: "world \<Rightarrow> Config' \<Rightarrow> go_int \<Rightarrow> go_int \<times> tick_obs" where
  "tick' w conf counter =
     (let (err, fx1) = request204 w;
          counter1 = (case err of Some e \<Rightarrow> counter + 1 | None \<Rightarrow> 0)
      in if DownTimes' conf \<le>s counter1
         then
           (let ((s, err2), fx3) = resetServer' w conf;
                counter2 = (case err2 of None \<Rightarrow> 0 | Some e \<Rightarrow> counter1)
            in (counter2,
                \<lparr>obs_prober = HTTP, obs_probe = err, obs_before = counter, obs_probed = counter1,
                 obs_reset = Some (s, err2), obs_after = counter2,
                 obs_effects = fx1 @ [log_Println [Str ''resetting server...'']] @ fx3 @ [log_Println [Str s]]\<rparr>))
         else
           (counter1,
            \<lparr>obs_prober = HTTP, obs_probe = err, obs_before = counter, obs_probed = counter1,
             obs_reset = None, obs_after = counter1, obs_effects = fx1\<rparr>))"

text \<open>The loop never ends by itself: a run is given by the ticks it has taken so far.\<close>

fun loop' :: "Config' \<Rightarrow> go_int \<Rightarrow> world list \<Rightarrow> go_int \<times> tick_obs list" where
  "loop' conf counter [] = (counter, [])"
| "loop' conf counter (w # ws) =
     (case tick' w conf counter of
        (counter1, ob) \<Rightarrow>
          (case loop' conf counter1 ws of (counter2, obs) \<Rightarrow> (counter2, ob # obs)))"

definition loopCheck' :: "Config' \<Rightarrow> world list \<Rightarrow> (go_int \<times> tick_obs list) outcome" where
  "loopCheck' conf ws =
     (if interval' conf \<le>s 0 then Panic ''non-positive interval for NewTicker''
      else Return (loop' conf 0 ws))"

subsection \<open>Sample configurations and worlds\<close>

text \<open>
  Concrete inputs on which the properties below are run: a target probed over HTTP with
  threshold 3 and a password, a target probed by ping with threshold 1 and a key file;
  the target of \<open>main.go\<close> with threshold 2;
  a world in which the network is down and the remote shell refuses the connection, one
  in which the network is down and the reset command runs, and one in which all is well.
\<close>

definition http_conf :: ProbeConfig where
  "http_conf =
     \<lparr>Name = ''router'', ProbeURL = ''https://www.google.com/generate_204'',
      Timeout = ''5s'', Interval = ''10s'', DownTimes = 3,
      Server = \<lparr>Hostname = ''192.168.1.1'', Username = ''admin'', Password = ''secret'',
                KeyFile = [], ResetCommand = ''reboot''\<rparr>,
      timeout = 5 * Second, interval = 10 * Second, httpClient = None\<rparr>"

definition ping_conf :: ProbeConfig where
  "ping_conf =
     \<lparr>Name = ''gateway'', ProbeURL = ''ping 10.0.0.1'',
      Timeout = ''5s'', Interval = ''30s'', DownTimes = 1,
      Server = \<lparr>Hostname = ''gw.example.org:2222'', Username = ''root'', Password = [],
                KeyFile = ''/etc/watchdog/id_rsa'', ResetCommand = ''systemctl restart network''\<rparr>,
      timeout = 5 * Second, interval = 30 * Second, httpClient = None\<rparr>"

definition single_conf :: Config' where
  "single_conf =
     \<lparr>Interval' = ''10s'', DownTimes' = 2, interval' = 10 * Second,
      Server' = \<lparr>Hostname' = ''router.lan'', Username' = ''admin'', Password' = ''secret'',
                 ResetCommand' = ''reboot''\<rparr>\<rparr>"

definition world_down :: world where
  "world_down =
     \<lparr>on_ReadFile = (\<lambda>f. Inr ''key bytes''),
      on_ParsePrivateKey = (\<lambda>b. Inr ''key''),
      on_Dial = (\<lambda>n a c. Some (errors_New ''connection refused'')),
      on_NewSession = None,
      on_Run = (\<lambda>c. ([], None)),
      on_NewPinger = (\<lambda>t. None),
      on_PingerRun = (\<lambda>p. 2),
      on_NewRequest = (\<lambda>m u. None),
      on_Do = (\<lambda>c u. Inl (errors_New ''i/o timeout'')),
      on_Get = (\<lambda>u. Inl (errors_New ''i/o timeout''))\<rparr>"

definition world_reset :: world where
  "world_reset = world_down\<lparr>on_Dial := (\<lambda>n a c. None), on_Run := (\<lambda>c. (''rebooting'', None))\<rparr>"

definition world_up :: world where
  "world_up =
     world_reset\<lparr>on_PingerRun := (\<lambda>p. 3),
                 on_Do := (\<lambda>c u. Inr \<lparr>StatusCode = 204, Body = Some []\<rparr>),
                 on_Get := (\<lambda>u. Inr \<lparr>StatusCode = 204, Body = Some []\<rparr>)\<rparr>"

text \<open>
  A run on the HTTP target: four ticks with the network down and the remote shell
  refusing, one on which the reset command runs, one with the network up again, then the
  stop, and one more tick the loop never takes.
\<close>

definition outage :: "select_case list" where
  "outage =
     [ticker_C world_down, ticker_C world_down, ticker_C world_down, ticker_C world_down,
      ticker_C world_reset, ticker_C world_up, stopCh, ticker_C world_down]"

text \<open>A start of the program with the two sample targets in its configuration file.\<close>

definition two_targets :: startup where
  "two_targets =
     \<lparr>confFilePath = ''config.yml'',
      on_Open = (\<lambda>f. None),
      on_ReadAll = Inr ''probes: ...'',
      on_Unmarshal =
        (\<lambda>d. Inr \<lparr>Probes = [http_conf\<lparr>Name := [], ProbeURL := [], timeout := 0, interval := 0\<rparr>,
                              ping_conf\<lparr>timeout := 0, interval := 0\<rparr>]\<rparr>),
      on_ParseDuration =
        (\<lambda>s. if s = ''5s'' then Inr (5 * Second)
             else if s = ''10s'' then Inr (10 * Second)
             else if s = ''30s'' then Inr (30 * Second)
             else Inl (errors_New ''time: invalid duration''))\<rparr>"

section \<open>Properties\<close>

subsection \<open>Strings\<close>

lemma HasPrefix_Cons: "HasPrefix (c # s) (d # p) = (c = d \<and> HasPrefix s p)"
  by (auto simp: HasPrefix_def)

lemma HasPrefix_Nil: "HasPrefix s [] = True" "HasPrefix [] (d # p) = False"
  by (auto simp: HasPrefix_def)

lemma HasPrefix_append: "HasPrefix s p = (\<exists>r. s = p @ r)"
  unfolding HasPrefix_def
  by (metis append_eq_conv_conj append_take_drop_id length_append le_add1)

text \<open>A probe URL that starts with \<open>ping \<close> splits in two: the host is what follows.\<close>

lemma SplitN_ping: "HasPrefix s ''ping '' \<Longrightarrow> SplitN s '' '' 2 = [''ping'', drop 5 s]"
  by (auto simp: HasPrefix_append numeral_2_eq_2 HasPrefix_Cons HasPrefix_Nil)

lemma Index_char_None: "(Index s [c] = None) = (c \<notin> set s)"
  by (induction s) (auto simp: HasPrefix_Cons HasPrefix_Nil split: option.splits)

lemma Index_char_Some:
  "c \<in> set s \<Longrightarrow> \<exists>m. Index s [c] = Some m"
  using Index_char_None [of s c] by auto

text \<open>
  A probe URL with a space in it splits in two at its first space; the host is the
  second part.
\<close>

lemma SplitN_space:
  assumes "CHR '' '' \<in> set s"
  shows "\<exists>a host. SplitN s '' '' 2 = [a, host]"
proof -
  from Index_char_Some [OF assms] obtain m where "Index s '' '' = Some m" ..
  then show ?thesis by (simp add: numeral_2_eq_2)
qed

lemma LastIndex_nonneg:
  "(0 \<le> LastIndex s sub) =
     (filter (\<lambda>i. HasPrefix (drop i s) sub) (rev [0 ..< Suc (length s)]) \<noteq> [])"
  by (auto simp: LastIndex_def split: list.splits)

lemma occurs_char: "(\<exists>i\<le>length s. HasPrefix (drop i s) [c]) = (c \<in> set s)"
proof (induction s)
  case Nil
  then show ?case by (simp add: HasPrefix_Nil)
next
  case (Cons a s)
  show ?case
  proof
    assume "\<exists>i\<le>length (a # s). HasPrefix (drop i (a # s)) [c]"
    then obtain i where i: "i \<le> length (a # s)" "HasPrefix (drop i (a # s)) [c]" by blast
    show "c \<in> set (a # s)"
    proof (cases i)
      case 0
      with i show ?thesis by (simp add: HasPrefix_Cons)
    next
      case (Suc j)
      with i have "j \<le> length s" "HasPrefix (drop j s) [c]" by simp_all
      with Cons.IH show ?thesis by auto
    qed
  next
    assume "c \<in> set (a # s)"
    then consider "c = a" | "c \<in> set s" by auto
    then show "\<exists>i\<le>length (a # s). HasPrefix (drop i (a # s)) [c]"
    proof cases
      case 1
      then have "HasPrefix (drop 0 (a # s)) [c]" by (simp add: HasPrefix_Cons HasPrefix_Nil)
      then show ?thesis by blast
    next
      case 2
      with Cons.IH obtain j where "j \<le> length s" "HasPrefix (drop j s) [c]" by blast
      then have "Suc j \<le> length (a # s)" "HasPrefix (drop (Suc j) (a # s)) [c]" by simp_all
      then show ?thesis by blast
    qed
  qed
qed

text \<open>\<open>strings.LastIndex(s, ":") >= 0\<close> says that \<open>s\<close> contains a colon.\<close>

lemma LastIndex_char: "(0 \<le> LastIndex s [c]) = (c \<in> set s)"
proof -
  have "(0 \<le> LastIndex s [c]) = (\<exists>i \<in> set (rev [0 ..< Suc (length s)]). HasPrefix (drop i s) [c])"
    unfolding LastIndex_nonneg filter_empty_conv by blast
  also have "\<dots> = (\<exists>i\<le>length s. HasPrefix (drop i s) [c])"
    unfolding set_rev set_upt by (metis atLeastLessThan_iff less_Suc_eq_le zero_le)
  finally show ?thesis by (simp add: occurs_char)
qed

subsection \<open>The counter as an integer\<close>

lemma sless_iff_not_sle: "(0 <s (d :: go_int)) = (\<not> d \<le>s 0)"
  by (auto simp: word_sless_alt word_sle_eq)


text \<open>
  Below the largest \<open>int\<close>, \<open>counter++\<close> adds one; at the largest \<open>int\<close> it wraps around
  to the smallest. The counter is at most the number of ticks taken, so a run gets there
  only with its tick number \<open>2 ^ 63\<close>.
\<close>

lemma counter_wraps: "sint (MaxInt + 1) = - (2 ^ 63)"
  by (simp add: MaxInt_def)


subsection \<open>The probers and the remediator\<close>

lemma pingProbe_ping:
  assumes "HasPrefix (ProbeURL conf) ''ping ''"
  shows "pingProbe verbose w conf =
     (case on_NewPinger w (drop 5 (ProbeURL conf)) of
        Some err \<Rightarrow> (Return (Some err), [ping_NewPinger (drop 5 (ProbeURL conf))])
      | None \<Rightarrow>
          (if on_PingerRun w
                \<lparr>Pinger_addr = drop 5 (ProbeURL conf), Pinger_privileged = True,
                 Pinger_Count = 3, Pinger_Timeout = 5 * Second,
                 Pinger_OnRecv = verbose, Pinger_OnFinish = verbose, PacketsRecv = 0\<rparr> <s 3
           then Return (Some ErrorPingProbeUnfinished) else Return None,
           [ping_NewPinger (drop 5 (ProbeURL conf)),
            pinger_Run
              \<lparr>Pinger_addr = drop 5 (ProbeURL conf), Pinger_privileged = True,
               Pinger_Count = 3, Pinger_Timeout = 5 * Second,
               Pinger_OnRecv = verbose, Pinger_OnFinish = verbose, PacketsRecv = 0\<rparr>]))"
  by (simp add: pingProbe_def SplitN_ping [OF assms] Let_def split: option.splits)

text \<open>The same for every probe URL with a space in it.\<close>

lemma pingProbe_split:
  fixes verbose w conf
  defines "host \<equiv> SplitN (ProbeURL conf) '' '' 2 ! 1"
  defines "pinger \<equiv>
     \<lparr>Pinger_addr = host, Pinger_privileged = True, Pinger_Count = 3,
      Pinger_Timeout = 5 * Second, Pinger_OnRecv = verbose, Pinger_OnFinish = verbose,
      PacketsRecv = 0\<rparr>"
  assumes "CHR '' '' \<in> set (ProbeURL conf)"
  shows "pingProbe verbose w conf =
     (case on_NewPinger w host of
        Some err \<Rightarrow> (Return (Some err), [ping_NewPinger host])
      | None \<Rightarrow>
          (if on_PingerRun w pinger <s 3
           then Return (Some ErrorPingProbeUnfinished) else Return None,
           [ping_NewPinger host, pinger_Run pinger]))"
proof -
  from SplitN_space [OF assms(3)] obtain a h where
    P: "SplitN (ProbeURL conf) '' '' 2 = [a, h]" by (elim exE)
  show ?thesis
    by (simp add: pingProbe_def host_def pinger_def P Let_def split: option.splits)
qed

lemma pingProbe_returns:
  assumes "HasPrefix (ProbeURL conf) ''ping ''"
  obtains e fx where "pingProbe verbose w conf = (Return e, fx)"
    and "library_of ` set fx = {Ping}"
proof (cases "fst (pingProbe verbose w conf)")
  case (Panic m)
  then show ?thesis
    by (simp add: pingProbe_ping [OF assms] split: option.splits if_splits)
next
  case (Return e)
  then have "pingProbe verbose w conf = (Return e, snd (pingProbe verbose w conf))"
    by (metis prod.collapse)
  moreover have "library_of ` set (snd (pingProbe verbose w conf)) = {Ping}"
    by (simp add: pingProbe_ping [OF assms] split: option.splits)
  ultimately show ?thesis by (rule that)
qed

text \<open>
  The one panic of the probers, on a probe URL without a space, is out of reach of
  \<open>loopCheck\<close>, which calls \<open>pingProbe\<close> only on a URL that starts with \<open>ping \<close>.
\<close>

lemma pingProbe_panics:
  "CHR '' '' \<notin> set (ProbeURL conf) \<Longrightarrow>
     pingProbe verbose w conf = (Panic ''malformed ping probe url'', [])"
  by (simp add: pingProbe_def numeral_2_eq_2 Index_char_None [THEN iffD2])

lemma requestProbe_conf:
  "requestProbe w conf = ((e, conf1), fx) \<Longrightarrow> conf1 = conf\<lparr>httpClient := httpClient conf1\<rparr>"
  by (auto simp: requestProbe_def Let_def split: option.splits sum.splits if_splits)

lemma requestProbe_library:
  "requestProbe w conf = ((e, conf1), fx) \<Longrightarrow> library_of ` set fx = {Http}"
  by (auto simp: requestProbe_def Let_def split: option.splits sum.splits if_splits)

lemma PublicKeyFile_effects:
  "set (snd (PublicKeyFile w f)) \<subseteq> {ioutil_ReadFile f} \<union> range ssh_ParsePrivateKey"
  by (auto simp: PublicKeyFile_def split: sum.splits)

lemma PublicKeyFile_library:
  "library_of ` set (snd (PublicKeyFile w f)) \<subseteq> {Files, Ssh}"
  using PublicKeyFile_effects [of w f] by auto

text \<open>
  The ways through \<open>resetServer\<close>: the key file cannot be used and nothing is dialled;
  or the authentication methods are collected and the host is dialled.
\<close>

lemma resetServer_key_fails:
  assumes "KeyFile (Server conf) \<noteq> []"
    and "fst (PublicKeyFile w (KeyFile (Server conf))) = Inl err"
  shows "resetServer w conf = (([], Some err), snd (PublicKeyFile w (KeyFile (Server conf))))"
  using assms
  by (cases "PublicKeyFile w (KeyFile (Server conf))") (simp add: resetServer_def Let_def)

lemma resetServer_dials:
  fixes w conf
  defines "h \<equiv> Hostname (Server conf)"
  assumes "KeyFile (Server conf) = [] \<or> fst (PublicKeyFile w (KeyFile (Server conf))) = Inr k"
  shows "\<exists>config rest.
           snd (resetServer w conf) =
             (if KeyFile (Server conf) = [] then [] else snd (PublicKeyFile w (KeyFile (Server conf))))
             @ ssh_Dial ''tcp'' (if CHR '':'' \<in> set h then h else h @ '':22'') config # rest
           \<and> User config = Username (Server conf) \<and> HostKeyCallback config
           \<and> set rest \<subseteq> {client_NewSession, session_Run (ResetCommand (Server conf)), session_Close}"
proof (cases "KeyFile (Server conf) = []")
  case True
  then show ?thesis
    by (simp add: resetServer_def Let_def LastIndex_char h_def split: option.splits)
next
  case False
  with assms(2) show ?thesis
    by (cases "PublicKeyFile w (KeyFile (Server conf))")
      (simp add: resetServer_def Let_def LastIndex_char h_def split: option.splits)
qed

lemma resetServer_library:
  "library_of ` set (snd (resetServer w conf)) \<subseteq> {Files, Ssh}"
proof -
  let ?pkf = "PublicKeyFile w (KeyFile (Server conf))"
  have K: "library_of ` set (snd ?pkf) \<subseteq> {Files, Ssh}"
    by (rule PublicKeyFile_library)
  show ?thesis
  proof (cases "KeyFile (Server conf) \<noteq> [] \<and> (\<exists>err. fst ?pkf = Inl err)")
    case True
    then obtain err where E: "KeyFile (Server conf) \<noteq> []" "fst ?pkf = Inl err"
      by (elim conjE exE)
    from resetServer_key_fails [OF E] K show ?thesis by simp
  next
    case False
    then obtain k where D: "KeyFile (Server conf) = [] \<or> fst ?pkf = Inr k"
      by (cases "fst ?pkf") auto
    from resetServer_dials [OF D] obtain config rest where
      S: "snd (resetServer w conf) =
           (if KeyFile (Server conf) = [] then [] else snd ?pkf)
           @ ssh_Dial ''tcp'' (if CHR '':'' \<in> set (Hostname (Server conf)) then Hostname (Server conf)
                else Hostname (Server conf) @ '':22'') config # rest"
      and R: "set rest \<subseteq> {client_NewSession, session_Run (ResetCommand (Server conf)), session_Close}"
      by (elim exE conjE) (rule that)
    from R have "library_of ` set rest \<subseteq> {Files, Ssh}" by auto
    with K show ?thesis unfolding S by (auto split: if_splits)
  qed
qed

text \<open>The choice of the prober never panics: \<open>pingProbe\<close> is called on a URL it can split.\<close>

lemma probeStep_Return:
  "\<exists>p e conf1 fx1.
     probeStep verbose w conf = Return (p, e, conf1, fx1)
     \<and> conf1 = conf\<lparr>httpClient := httpClient conf1\<rparr>
     \<and> (if HasPrefix (ProbeURL conf) ''ping ''
        then p = ICMP \<and> conf1 = conf \<and> pingProbe verbose w conf = (Return e, fx1)
             \<and> library_of ` set fx1 = {Ping}
        else p = HTTP \<and> requestProbe w conf = ((e, conf1), fx1)
             \<and> library_of ` set fx1 = {Http})"
proof (cases "HasPrefix (ProbeURL conf) ''ping ''")
  case True
  then obtain e fx where "pingProbe verbose w conf = (Return e, fx)" "library_of ` set fx = {Ping}"
    by (rule pingProbe_returns)
  with True show ?thesis
    by (simp add: probeStep_def)
next
  case False
  obtain e conf1 fx where Q: "requestProbe w conf = ((e, conf1), fx)"
    by (metis surj_pair)
  with False requestProbe_conf [OF Q] requestProbe_library [OF Q]
  show ?thesis
    by (simp add: probeStep_def)
qed

lemma httpClient_update_fields:
  "conf1 = conf\<lparr>httpClient := c\<rparr> \<Longrightarrow>
     DownTimes conf1 = DownTimes conf \<and> Name conf1 = Name conf \<and> ProbeURL conf1 = ProbeURL conf
     \<and> Server conf1 = Server conf \<and> interval conf1 = interval conf"
  by simp

subsection \<open>One tick\<close>

text \<open>The tick in closed form, given what the prober and the remediator return.\<close>

lemma tick_closed:
  fixes v e conf1 s err2
  defines "c1 \<equiv> (case e of None \<Rightarrow> 0 | Some x \<Rightarrow> lv_counter v + 1)"
  defines "c2 \<equiv> (if DownTimes conf1 \<le>s c1 then (case err2 of None \<Rightarrow> 0 | Some x \<Rightarrow> c1) else c1)"
  assumes D: "probeStep verbose w (lv_conf v) = Return (p, e, conf1, fx1)"
    and R: "resetServer w conf1 = ((s, err2), fx3)"
  shows "tick verbose w v =
     Return
       (\<lparr>lv_conf = conf1, lv_counter = c2,
         lv_err = (if DownTimes conf1 \<le>s c1 then err2 else e)\<rparr>,
        \<lparr>obs_prober = p, obs_probe = e, obs_before = lv_counter v, obs_probed = c1,
         obs_reset = (if DownTimes conf1 \<le>s c1 then Some (s, err2) else None),
         obs_after = c2,
         obs_effects =
           fx1
           @ (case e of
                Some x \<Rightarrow>
                  [log_Println [Str ''server'', Str (Name conf1), Str ''probe check error:'',
                                Err x, Str ''counter:'', Num (lv_counter v + 1)]]
              | None \<Rightarrow>
                  (if verbose
                   then [log_Println [Str ''server'', Str (Name conf1), Str ''probe check success'']]
                   else []))
           @ (if DownTimes conf1 \<le>s c1
              then log_Println [Str ''resetting server'', Str (Name conf1), Str ''...''] # fx3
                   @ log_Println [Str s]
                   # (case err2 of
                        None \<Rightarrow> []
                      | Some x \<Rightarrow>
                          [log_Println [Str ''resetting server'', Str (Name conf1), Str ''error:'', Err x]])
              else [])\<rparr>)"
  unfolding tick_def Let_def D c1_def c2_def
  by (cases e; cases err2) (simp_all add: R)

lemma tick_parts:
  assumes D: "probeStep verbose w (lv_conf v) = Return (p, e, conf1, fx1)"
    and R: "resetServer w conf1 = ((s, err2), fx3)"
  obtains v1 ob where "tick verbose w v = Return (v1, ob)"
    and "lv_conf v1 = conf1"
    and "lv_counter v1 =
           (if DownTimes conf1 \<le>s (case e of None \<Rightarrow> 0 | Some x \<Rightarrow> lv_counter v + 1)
            then (case err2 of None \<Rightarrow> 0 | Some x \<Rightarrow> (case e of None \<Rightarrow> 0 | Some x \<Rightarrow> lv_counter v + 1))
            else (case e of None \<Rightarrow> 0 | Some x \<Rightarrow> lv_counter v + 1))"
    and "obs_prober ob = p" and "obs_probe ob = e" and "obs_before ob = lv_counter v"
    and "obs_probed ob = (case e of None \<Rightarrow> 0 | Some x \<Rightarrow> lv_counter v + 1)"
    and "obs_reset ob =
           (if DownTimes conf1 \<le>s (case e of None \<Rightarrow> 0 | Some x \<Rightarrow> lv_counter v + 1)
            then Some (s, err2) else None)"
    and "obs_after ob = lv_counter v1"
    and "obs_effects ob =
           fx1
           @ (case e of
                Some x \<Rightarrow>
                  [log_Println [Str ''server'', Str (Name conf1), Str ''probe check error:'',
                                Err x, Str ''counter:'', Num (lv_counter v + 1)]]
              | None \<Rightarrow>
                  (if verbose
                   then [log_Println [Str ''server'', Str (Name conf1), Str ''probe check success'']]
                   else []))
           @ (if DownTimes conf1 \<le>s (case e of None \<Rightarrow> 0 | Some x \<Rightarrow> lv_counter v + 1)
              then log_Println [Str ''resetting server'', Str (Name conf1), Str ''...''] # fx3
                   @ log_Println [Str s]
                   # (case err2 of
                        None \<Rightarrow> []
                      | Some x \<Rightarrow>
                          [log_Println [Str ''resetting server'', Str (Name conf1), Str ''error:'', Err x]])
              else [])"
  by (rule that [OF tick_closed [OF D R]]) simp_all

lemma tick_facts:
  fixes verbose :: bool and w :: world and v :: loop_vars
  obtains v1 ob where "tick verbose w v = Return (v1, ob)"
    and "obs_before ob = lv_counter v"
    and "obs_probed ob = (case obs_probe ob of None \<Rightarrow> 0 | Some x \<Rightarrow> lv_counter v + 1)"
    and "obs_reset ob =
           (if DownTimes (lv_conf v) \<le>s obs_probed ob
            then Some (fst (resetServer w (lv_conf v1))) else None)"
    and "obs_after ob = lv_counter v1"
    and "lv_counter v1 = (case obs_reset ob of Some (s, None) \<Rightarrow> 0 | _ \<Rightarrow> obs_probed ob)"
    and "lv_conf v1 = (lv_conf v)\<lparr>httpClient := httpClient (lv_conf v1)\<rparr>"
    and "obs_prober ob = (if HasPrefix (ProbeURL (lv_conf v)) ''ping '' then ICMP else HTTP)"
    and "if HasPrefix (ProbeURL (lv_conf v)) ''ping ''
         then fst (pingProbe verbose w (lv_conf v)) = Return (obs_probe ob)
         else fst (fst (requestProbe w (lv_conf v))) = obs_probe ob"
    and "(log_Println [Str ''resetting server'', Str (Name (lv_conf v)), Str ''...''] \<in> set (obs_effects ob))
           = (DownTimes (lv_conf v) \<le>s obs_probed ob)"
    and "(Ping \<in> library_of ` set (obs_effects ob)) = HasPrefix (ProbeURL (lv_conf v)) ''ping ''"
    and "(Http \<in> library_of ` set (obs_effects ob)) = (\<not> HasPrefix (ProbeURL (lv_conf v)) ''ping '')"
    and "Ssh \<in> library_of ` set (obs_effects ob) \<longrightarrow> DownTimes (lv_conf v) \<le>s obs_probed ob"
proof -
  let ?ping = "HasPrefix (ProbeURL (lv_conf v)) ''ping ''"
  from probeStep_Return [of verbose w "lv_conf v"]
  obtain p e conf1 fx1 where D: "probeStep verbose w (lv_conf v) = Return (p, e, conf1, fx1)"
    and C: "conf1 = (lv_conf v)\<lparr>httpClient := httpClient conf1\<rparr>"
    and T: "if ?ping
            then p = ICMP \<and> conf1 = lv_conf v \<and> pingProbe verbose w (lv_conf v) = (Return e, fx1)
                 \<and> library_of ` set fx1 = {Ping}
            else p = HTTP \<and> requestProbe w (lv_conf v) = ((e, conf1), fx1)
                 \<and> library_of ` set fx1 = {Http}"
    by (elim exE conjE) (rule that)
  obtain s err2 fx3 where R: "resetServer w conf1 = ((s, err2), fx3)"
    by (metis surj_pair)
  note N = httpClient_update_fields [OF C]
  have L3: "library_of ` set fx3 \<subseteq> {Files, Ssh}"
    using resetServer_library [of w conf1] by (simp add: R)
  have L1: "library_of ` set fx1 = (if ?ping then {Ping} else {Http})"
    using T by (simp split: if_splits)
  have P1: "log_Println a \<notin> set fx1" for a
  proof
    assume "log_Println a \<in> set fx1"
    then have "library_of (log_Println a) \<in> library_of ` set fx1" by (rule imageI)
    with L1 show False by (simp split: if_splits)
  qed
  have P3: "log_Println a \<notin> set fx3" for a
  proof
    assume "log_Println a \<in> set fx3"
    then have "library_of (log_Println a) \<in> library_of ` set fx3" by (rule imageI)
    with L3 show False by auto
  qed
  from D R obtain v1 ob where K: "tick verbose w v = Return (v1, ob)"
    and V: "lv_conf v1 = conf1"
      "lv_counter v1 = (if DownTimes conf1 \<le>s (case e of None \<Rightarrow> 0 | Some x \<Rightarrow> lv_counter v + 1)
         then (case err2 of None \<Rightarrow> 0 | Some x \<Rightarrow> (case e of None \<Rightarrow> 0 | Some x \<Rightarrow> lv_counter v + 1))
         else (case e of None \<Rightarrow> 0 | Some x \<Rightarrow> lv_counter v + 1))"
    and O: "obs_prober ob = p" "obs_probe ob = e" "obs_before ob = lv_counter v"
      "obs_probed ob = (case e of None \<Rightarrow> 0 | Some x \<Rightarrow> lv_counter v + 1)"
      "obs_reset ob = (if DownTimes conf1 \<le>s (case e of None \<Rightarrow> 0 | Some x \<Rightarrow> lv_counter v + 1)
         then Some (s, err2) else None)"
      "obs_after ob = lv_counter v1"
    and X: "obs_effects ob =
           fx1
           @ (case e of
                Some x \<Rightarrow>
                  [log_Println [Str ''server'', Str (Name conf1), Str ''probe check error:'',
                                Err x, Str ''counter:'', Num (lv_counter v + 1)]]
              | None \<Rightarrow>
                  (if verbose
                   then [log_Println [Str ''server'', Str (Name conf1), Str ''probe check success'']]
                   else []))
           @ (if DownTimes conf1 \<le>s (case e of None \<Rightarrow> 0 | Some x \<Rightarrow> lv_counter v + 1)
              then log_Println [Str ''resetting server'', Str (Name conf1), Str ''...''] # fx3
                   @ log_Println [Str s]
                   # (case err2 of
                        None \<Rightarrow> []
                      | Some x \<Rightarrow>
                          [log_Println [Str ''resetting server'', Str (Name conf1), Str ''error:'', Err x]])
              else [])"
    by (rule tick_parts)
  show ?thesis
  proof (rule that [OF K])
    show "obs_before ob = lv_counter v" by (rule O)
    show "obs_probed ob = (case obs_probe ob of None \<Rightarrow> 0 | Some x \<Rightarrow> lv_counter v + 1)"
      by (simp add: O)
    show "obs_reset ob =
           (if DownTimes (lv_conf v) \<le>s obs_probed ob
            then Some (fst (resetServer w (lv_conf v1))) else None)"
      by (simp add: O V R N)
    show "obs_after ob = lv_counter v1" by (rule O)
    show "lv_counter v1 = (case obs_reset ob of Some (s, None) \<Rightarrow> 0 | _ \<Rightarrow> obs_probed ob)"
      by (simp add: O V split: option.splits)
    show "lv_conf v1 = (lv_conf v)\<lparr>httpClient := httpClient (lv_conf v1)\<rparr>"
      using C by (simp add: V)
    show "obs_prober ob = (if ?ping then ICMP else HTTP)"
      using T by (simp add: O split: if_splits)
    show "if ?ping
         then fst (pingProbe verbose w (lv_conf v)) = Return (obs_probe ob)
         else fst (fst (requestProbe w (lv_conf v))) = obs_probe ob"
      using T by (simp add: O split: if_splits)
    show "(log_Println [Str ''resetting server'', Str (Name (lv_conf v)), Str ''...''] \<in> set (obs_effects ob))
           = (DownTimes (lv_conf v) \<le>s obs_probed ob)"
      by (simp add: X O N P1 P3 split: option.splits)
    show "(Ping \<in> library_of ` set (obs_effects ob)) = ?ping"
      using L3 by (auto simp: X L1 image_Un split: option.splits if_splits)
    show "(Http \<in> library_of ` set (obs_effects ob)) = (\<not> ?ping)"
      using L3 by (auto simp: X L1 image_Un split: option.splits if_splits)
    show "Ssh \<in> library_of ` set (obs_effects ob) \<longrightarrow> DownTimes (lv_conf v) \<le>s obs_probed ob"
      by (auto simp: X O N L1 image_Un split: option.splits if_splits)
  qed
qed

text \<open>
  \<open>calls_to\<close> goes through a list call by call; it keeps a list whose calls all go to the
  libraries asked for, and empties a list none of whose calls does.
\<close>

lemma calls_to_Nil: "calls_to A [] = []"
  by (simp add: calls_to_def)

lemma calls_to_append: "calls_to A (xs @ ys) = calls_to A xs @ calls_to A ys"
  by (simp add: calls_to_def)

lemma calls_to_Cons:
  "calls_to A (x # xs) = (if library_of x \<in> A then x # calls_to A xs else calls_to A xs)"
  by (simp add: calls_to_def)

lemma calls_to_all: "library_of ` set xs \<subseteq> A \<Longrightarrow> calls_to A xs = xs"
  unfolding calls_to_def by (induction xs) auto

lemma calls_to_none: "library_of ` set xs \<inter> A = {} \<Longrightarrow> calls_to A xs = []"
  unfolding calls_to_def by (induction xs) auto

text \<open>
  The calls of a tick, sorted by library: its calls to the probe libraries are the calls
  of the prober it chose, in order; its calls to the file system and the remote shell are
  the calls of \<open>resetServer\<close> when the threshold is reached, and none otherwise.
\<close>

lemma tick_calls:
  assumes K: "tick verbose w v = Return (v1, ob)"
  shows "if HasPrefix (ProbeURL (lv_conf v)) ''ping ''
         then pingProbe verbose w (lv_conf v) =
                (Return (obs_probe ob), calls_to {Ping, Http} (obs_effects ob))
              \<and> lv_conf v1 = lv_conf v
         else requestProbe w (lv_conf v) =
                ((obs_probe ob, lv_conf v1), calls_to {Ping, Http} (obs_effects ob))"
    and "calls_to {Files, Ssh} (obs_effects ob) =
           (if DownTimes (lv_conf v) \<le>s obs_probed ob then snd (resetServer w (lv_conf v1)) else [])"
proof -
  let ?ping = "HasPrefix (ProbeURL (lv_conf v)) ''ping ''"
  from probeStep_Return [of verbose w "lv_conf v"]
  obtain p e conf1 fx1 where D: "probeStep verbose w (lv_conf v) = Return (p, e, conf1, fx1)"
    and C: "conf1 = (lv_conf v)\<lparr>httpClient := httpClient conf1\<rparr>"
    and T: "if ?ping
            then p = ICMP \<and> conf1 = lv_conf v \<and> pingProbe verbose w (lv_conf v) = (Return e, fx1)
                 \<and> library_of ` set fx1 = {Ping}
            else p = HTTP \<and> requestProbe w (lv_conf v) = ((e, conf1), fx1)
                 \<and> library_of ` set fx1 = {Http}"
    by (elim exE conjE) (rule that)
  obtain s err2 fx3 where R: "resetServer w conf1 = ((s, err2), fx3)"
    by (metis surj_pair)
  note N = httpClient_update_fields [OF C]
  have L3: "library_of ` set fx3 \<subseteq> {Files, Ssh}"
    using resetServer_library [of w conf1] by (simp add: R)
  have L1: "library_of ` set fx1 \<subseteq> {Ping, Http}"
    using T by (auto split: if_splits)
  note F1 = calls_to_all [OF L1] calls_to_all [OF L3]
  have "library_of ` set fx1 \<inter> {Files, Ssh} = {}" using L1 by auto
  note F2 = calls_to_none [OF this]
  have "library_of ` set fx3 \<inter> {Ping, Http} = {}" using L3 by auto
  note F3 = calls_to_none [OF this]
  from D R obtain v1' ob' where K': "tick verbose w v = Return (v1', ob')"
    and V: "lv_conf v1' = conf1"
    and O: "obs_probe ob' = e"
      "obs_probed ob' = (case e of None \<Rightarrow> 0 | Some x \<Rightarrow> lv_counter v + 1)"
    and X: "obs_effects ob' =
           fx1
           @ (case e of
                Some x \<Rightarrow>
                  [log_Println [Str ''server'', Str (Name conf1), Str ''probe check error:'',
                                Err x, Str ''counter:'', Num (lv_counter v + 1)]]
              | None \<Rightarrow>
                  (if verbose
                   then [log_Println [Str ''server'', Str (Name conf1), Str ''probe check success'']]
                   else []))
           @ (if DownTimes conf1 \<le>s (case e of None \<Rightarrow> 0 | Some x \<Rightarrow> lv_counter v + 1)
              then log_Println [Str ''resetting server'', Str (Name conf1), Str ''...''] # fx3
                   @ log_Println [Str s]
                   # (case err2 of
                        None \<Rightarrow> []
                      | Some x \<Rightarrow>
                          [log_Println [Str ''resetting server'', Str (Name conf1), Str ''error:'', Err x]])
              else [])"
    by (rule tick_parts)
  from K K' have E: "v1' = v1" "ob' = ob" by simp_all
  have P: "calls_to {Ping, Http} (obs_effects ob') = fx1"
    unfolding X by (simp add: calls_to_append calls_to_Cons calls_to_Nil F1 F3 split: option.splits)
  have Q: "calls_to {Files, Ssh} (obs_effects ob') =
      (if DownTimes conf1 \<le>s (case e of None \<Rightarrow> 0 | Some x \<Rightarrow> lv_counter v + 1) then fx3 else [])"
    unfolding X by (simp add: calls_to_append calls_to_Cons calls_to_Nil F1 F2 split: option.splits)
  show "if ?ping
         then pingProbe verbose w (lv_conf v) =
                (Return (obs_probe ob), calls_to {Ping, Http} (obs_effects ob))
              \<and> lv_conf v1 = lv_conf v
         else requestProbe w (lv_conf v) =
                ((obs_probe ob, lv_conf v1), calls_to {Ping, Http} (obs_effects ob))"
    using T unfolding E [symmetric] by (simp add: P O V split: if_splits)
  show "calls_to {Files, Ssh} (obs_effects ob) =
           (if DownTimes (lv_conf v) \<le>s obs_probed ob then snd (resetServer w (lv_conf v1)) else [])"
    unfolding E [symmetric] by (simp add: Q O V R N)
qed

subsection \<open>The loop\<close>

lemma loop_returns: "\<exists>st v1 obs. loop verbose v cs = Return (st, v1, obs)"
proof (induction cs arbitrary: v)
  case Nil
  show ?case by simp
next
  case (Cons c cs)
  show ?case
  proof (cases c)
    case stopCh
    then show ?thesis by simp
  next
    case (ticker_C w)
    obtain v1 ob where K: "tick verbose w v = Return (v1, ob)"
      by (rule tick_facts)
    from Cons.IH [of v1] obtain st v2 obs where "loop verbose v1 cs = Return (st, v2, obs)"
      by blast
    with K ticker_C show ?thesis by simp
  qed
qed

text \<open>Ticks only, then the stop: the ticks are processed, whatever follows is not.\<close>

lemma loop_ticks:
  "\<exists>v1 obs. loop verbose v (map ticker_C ws) = Return (Running, v1, obs)
      \<and> length obs = length ws
      \<and> loop verbose v (map ticker_C ws @ stopCh # rest) = Return (Exited, v1, obs)"
proof (induction ws arbitrary: v)
  case Nil
  show ?case by simp
next
  case (Cons w ws)
  obtain v1 ob where K: "tick verbose w v = Return (v1, ob)"
    by (rule tick_facts)
  from Cons.IH [of v1] obtain v2 obs where
    "loop verbose v1 (map ticker_C ws) = Return (Running, v2, obs)" "length obs = length ws"
    "loop verbose v1 (map ticker_C ws @ stopCh # rest) = Return (Exited, v2, obs)"
    by blast
  with K show ?case by simp
qed






subsection \<open>Startup\<close>

lemma prepareProbes_DownTimes:
  "prepareProbes pd ps = Inr qs \<Longrightarrow> length qs = length ps \<and> (\<forall>q \<in> set qs. 0 <s DownTimes q)"
proof (induction ps arbitrary: qs)
  case Nil
  then show ?case by simp
next
  case (Cons p ps)
  then show ?case
    by (auto simp: Let_def sless_iff_not_sle split: sum.splits if_splits)
qed

text \<open>Monitoring starts only with at least one probe and with positive thresholds.\<close>

lemma main_Monitoring:
  assumes "main su = Monitoring ps"
  shows "ps \<noteq> [] \<and> (\<forall>p \<in> set ps. 0 <s DownTimes p)"
proof -
  from assms obtain conf :: Config where "Probes conf \<noteq> []"
    and "prepareProbes (on_ParseDuration su) (Probes conf) = Inr ps"
    by (auto simp: main_def split: if_splits option.splits sum.splits)
  with prepareProbes_DownTimes [of "on_ParseDuration su" "Probes conf" ps]
  show ?thesis by auto
qed

subsection \<open>The single-target program\<close>

lemma request204_effects: "log_Println a \<notin> set (snd (request204 w))"
  by (simp add: request204_def Let_def split: sum.splits)

lemma resetServer'_dials:
  fixes w conf
  defines "h \<equiv> Hostname' (Server' conf)"
  shows "\<exists>config rest.
           snd (resetServer' w conf) =
             ssh_Dial ''tcp'' (if CHR '':'' \<in> set h then h else h @ '':22'') config # rest
           \<and> set rest \<subseteq> {client_NewSession, session_Run (ResetCommand' (Server' conf)), session_Close}"
  by (simp add: resetServer'_def Let_def LastIndex_char h_def split: option.splits)

lemma resetServer'_effects: "log_Println a \<notin> set (snd (resetServer' w conf))"
  using resetServer'_dials [of w conf] by auto

lemma tick'_facts:
  fixes w conf c
  defines "ob \<equiv> snd (tick' w conf c)"
  shows "obs_before ob = c"
    and "obs_probe ob = fst (request204 w)"
    and "obs_probed ob = (case obs_probe ob of None \<Rightarrow> 0 | Some x \<Rightarrow> c + 1)"
    and "obs_reset ob =
           (if DownTimes' conf \<le>s obs_probed ob then Some (fst (resetServer' w conf)) else None)"
    and "fst (tick' w conf c) = obs_after ob"
    and "obs_after ob = (case obs_reset ob of Some (s, None) \<Rightarrow> 0 | _ \<Rightarrow> obs_probed ob)"
    and "(log_Println [Str ''resetting server...''] \<in> set (obs_effects ob))
           = (DownTimes' conf \<le>s obs_probed ob)"
proof -
  obtain e fx1 where Q: "request204 w = (e, fx1)" by (metis surj_pair)
  obtain s err2 fx3 where R: "resetServer' w conf = ((s, err2), fx3)" by (metis surj_pair)
  have P1: "log_Println a \<notin> set fx1" for a
    using request204_effects [of a w] by (simp add: Q)
  have P3: "log_Println a \<notin> set fx3" for a
    using resetServer'_effects [of a w conf] by (simp add: R)
  show "obs_before ob = c"
    by (simp add: ob_def tick'_def Q R Let_def)
  show "obs_probe ob = fst (request204 w)"
    by (simp add: ob_def tick'_def Q R Let_def)
  show "obs_probed ob = (case obs_probe ob of None \<Rightarrow> 0 | Some x \<Rightarrow> c + 1)"
    by (simp add: ob_def tick'_def Q R Let_def)
  show "obs_reset ob =
           (if DownTimes' conf \<le>s obs_probed ob then Some (fst (resetServer' w conf)) else None)"
    by (simp add: ob_def tick'_def Q R Let_def)
  show "fst (tick' w conf c) = obs_after ob"
    by (simp add: ob_def tick'_def Q R Let_def)
  show "obs_after ob = (case obs_reset ob of Some (s, None) \<Rightarrow> 0 | _ \<Rightarrow> obs_probed ob)"
    by (simp add: ob_def tick'_def Q R Let_def split: option.splits)
  show "(log_Println [Str ''resetting server...''] \<in> set (obs_effects ob))
           = (DownTimes' conf \<le>s obs_probed ob)"
    by (simp add: ob_def tick'_def Q R P1 P3 Let_def)
qed

text \<open>\<open>request204\<close> calls the HTTP library only, \<open>resetServer'\<close> the remote shell only.\<close>

lemma request204_library: "library_of ` set (snd (request204 w)) \<subseteq> {Http}"
  by (simp add: request204_def Let_def split: sum.splits)

lemma resetServer'_library: "library_of ` set (snd (resetServer' w conf)) \<subseteq> {Ssh}"
  by (simp add: resetServer'_def Let_def split: option.splits)

text \<open>
  The calls of a tick of \<open>main.go\<close>, sorted by library: those of \<open>request204\<close>, then those
  of \<open>resetServer'\<close> when the threshold is reached.
\<close>

lemma tick'_calls:
  fixes w conf c
  defines "ob \<equiv> snd (tick' w conf c)"
  shows "calls_to {Ping, Http} (obs_effects ob) = snd (request204 w)"
    and "calls_to {Files, Ssh} (obs_effects ob) =
           (if DownTimes' conf \<le>s obs_probed ob then snd (resetServer' w conf) else [])"
proof -
  obtain e fx1 where Q: "request204 w = (e, fx1)" by (metis surj_pair)
  obtain s err2 fx3 where R: "resetServer' w conf = ((s, err2), fx3)" by (metis surj_pair)
  have L1: "library_of ` set fx1 \<subseteq> {Http}"
    using request204_library [of w] by (simp add: Q)
  have L3: "library_of ` set fx3 \<subseteq> {Ssh}"
    using resetServer'_library [of w conf] by (simp add: R)
  from L1 have A1: "calls_to {Ping, Http} fx1 = fx1" by (intro calls_to_all) auto
  from L3 have A3: "calls_to {Files, Ssh} fx3 = fx3" by (intro calls_to_all) auto
  from L1 have N1: "calls_to {Files, Ssh} fx1 = []" by (intro calls_to_none) auto
  from L3 have N3: "calls_to {Ping, Http} fx3 = []" by (intro calls_to_none) auto
  show "calls_to {Ping, Http} (obs_effects ob) = snd (request204 w)"
    by (simp add: ob_def tick'_def Q R Let_def calls_to_append calls_to_Cons calls_to_Nil A1 N3)
  show "calls_to {Files, Ssh} (obs_effects ob) =
           (if DownTimes' conf \<le>s obs_probed ob then snd (resetServer' w conf) else [])"
    by (simp add: ob_def tick'_def Q R Let_def calls_to_append calls_to_Cons calls_to_Nil A3 N1)
qed

subsection \<open>The sample inputs\<close>

text \<open>The equations that run the model on the sample inputs.\<close>

lemmas run_simps =
  tick_def probeStep_def pingProbe_def requestProbe_def resetServer_def PublicKeyFile_def
  loopCheck_def HasPrefix_def LastIndex_def MethodGet_def StatusOK_def StatusNoContent_def
  Second_def Let_def word_sle_eq word_sless_alt numeral_2_eq_2
  http_conf_def ping_conf_def world_down_def world_reset_def world_up_def

text \<open>
  The sample run: the threshold 3 is reached on the third tick and \<open>resetServer\<close> fails;
  it is called again on the fourth and on the fifth tick, where it succeeds and the
  counter goes back to 0; the sixth probe succeeds; the stop ends the loop.
\<close>

lemma outage_run:
  "\<exists>v obs. loopCheck False http_conf outage = Return (Exited, v, obs)
     \<and> lv_counter v = 0
     \<and> map obs_before obs = [0, 1, 2, 3, 4, 0]
     \<and> map obs_probed obs = [1, 2, 3, 4, 5, 0]
     \<and> map obs_after obs = [1, 2, 3, 4, 0, 0]
     \<and> map (\<lambda>ob. obs_probe ob = None) obs = [False, False, False, False, False, True]
     \<and> map (\<lambda>ob. map_option snd (obs_reset ob)) obs =
         [None, None, Some (Some (errors_New ''connection refused'')),
          Some (Some (errors_New ''connection refused'')), Some None, None]"
  by (simp add: run_simps outage_def)

text \<open>The sample start: the name of the first target defaults to its host name.\<close>

lemma two_targets_start:
  "main two_targets = Monitoring [http_conf\<lparr>Name := ''192.168.1.1''\<rparr>, ping_conf]"
  by (simp add: main_def two_targets_def http_conf_def ping_conf_def
      DefaultGenerate204ProbeURL_def Second_def word_sle_eq Let_def)

section \<open>The claims\<close>

text \<open>
  C1. On every tick, \<open>resetServer\<close> is called if and only if the counter, after the probe
  step has updated it (plus one on a failed probe, zero on a successful one), is at least
  \<open>DownTimes\<close>. The tick always returns. It starts from the counter of the loop; the
  result of its probe and its calls to the probe libraries are those of the prober chosen
  by the prefix of \<open>ProbeURL\<close>, run once on the configuration of the loop. Its calls to
  the file system and to the remote shell are exactly the calls of \<open>resetServer\<close> when the
  threshold is reached, and there is none otherwise; \<open>obs_reset\<close> is the result of
  \<open>resetServer\<close> when it was called, and the line \<open>resetting server <name> ...\<close> is
  logged exactly then. The counter the tick leaves is 0 after \<open>resetServer\<close> returned no
  error, and the counter of the probe step otherwise. The same holds for the tick
  \<open>tick'\<close> of \<open>main.go\<close>, with \<open>request204\<close> and \<open>resetServer'\<close>.
\<close>

theorem C1_remediation_iff_threshold_reached:
  fixes w' conf' c
  defines "ob' \<equiv> snd (tick' w' conf' c)"
  shows "(\<exists>v1 ob. tick verbose w v = Return (v1, ob)
       \<and> obs_probed ob = (case obs_probe ob of None \<Rightarrow> 0 | Some x \<Rightarrow> lv_counter v + 1)
       \<and> (obs_reset ob \<noteq> None) = (DownTimes (lv_conf v) \<le>s obs_probed ob)
       \<and> obs_reset ob =
           (if DownTimes (lv_conf v) \<le>s obs_probed ob
            then Some (fst (resetServer w (lv_conf v1))) else None)
       \<and> (log_Println [Str ''resetting server'', Str (Name (lv_conf v)), Str ''...''] \<in> set (obs_effects ob))
           = (DownTimes (lv_conf v) \<le>s obs_probed ob)
       \<and> obs_before ob = lv_counter v
       \<and> (if HasPrefix (ProbeURL (lv_conf v)) ''ping ''
          then pingProbe verbose w (lv_conf v) =
                 (Return (obs_probe ob), calls_to {Ping, Http} (obs_effects ob))
               \<and> lv_conf v1 = lv_conf v
          else requestProbe w (lv_conf v) =
                 ((obs_probe ob, lv_conf v1), calls_to {Ping, Http} (obs_effects ob)))
       \<and> calls_to {Files, Ssh} (obs_effects ob) =
           (if DownTimes (lv_conf v) \<le>s obs_probed ob then snd (resetServer w (lv_conf v1)) else [])
       \<and> obs_after ob = lv_counter v1
       \<and> lv_counter v1 = (case obs_reset ob of Some (s, None) \<Rightarrow> 0 | _ \<Rightarrow> obs_probed ob))
    \<and> obs_probed ob' = (case obs_probe ob' of None \<Rightarrow> 0 | Some x \<Rightarrow> c + 1)
    \<and> (obs_reset ob' \<noteq> None) = (DownTimes' conf' \<le>s obs_probed ob')
    \<and> obs_reset ob' =
        (if DownTimes' conf' \<le>s obs_probed ob' then Some (fst (resetServer' w' conf')) else None)
    \<and> (log_Println [Str ''resetting server...''] \<in> set (obs_effects ob'))
        = (DownTimes' conf' \<le>s obs_probed ob')
    \<and> obs_before ob' = c
    \<and> request204 w' = (obs_probe ob', calls_to {Ping, Http} (obs_effects ob'))
    \<and> calls_to {Files, Ssh} (obs_effects ob') =
        (if DownTimes' conf' \<le>s obs_probed ob' then snd (resetServer' w' conf') else [])
    \<and> fst (tick' w' conf' c) = obs_after ob'
    \<and> obs_after ob' = (case obs_reset ob' of Some (s, None) \<Rightarrow> 0 | _ \<Rightarrow> obs_probed ob')"
proof -
  obtain v1 ob where K: "tick verbose w v = Return (v1, ob)"
    and F: "obs_probed ob = (case obs_probe ob of None \<Rightarrow> 0 | Some x \<Rightarrow> lv_counter v + 1)"
      "obs_reset ob =
           (if DownTimes (lv_conf v) \<le>s obs_probed ob
            then Some (fst (resetServer w (lv_conf v1))) else None)"
      "(log_Println [Str ''resetting server'', Str (Name (lv_conf v)), Str ''...''] \<in> set (obs_effects ob))
           = (DownTimes (lv_conf v) \<le>s obs_probed ob)"
      "obs_before ob = lv_counter v"
      "obs_after ob = lv_counter v1"
      "lv_counter v1 = (case obs_reset ob of Some (s, None) \<Rightarrow> 0 | _ \<Rightarrow> obs_probed ob)"
    by (rule tick_facts)
  have I: "(obs_reset ob \<noteq> None) = (DownTimes (lv_conf v) \<le>s obs_probed ob)"
    by (subst F(2)) simp
  note G = tick_calls [OF K]
  from K F I G have A: "\<exists>v1 ob. tick verbose w v = Return (v1, ob)
       \<and> obs_probed ob = (case obs_probe ob of None \<Rightarrow> 0 | Some x \<Rightarrow> lv_counter v + 1)
       \<and> (obs_reset ob \<noteq> None) = (DownTimes (lv_conf v) \<le>s obs_probed ob)
       \<and> obs_reset ob =
           (if DownTimes (lv_conf v) \<le>s obs_probed ob
            then Some (fst (resetServer w (lv_conf v1))) else None)
       \<and> (log_Println [Str ''resetting server'', Str (Name (lv_conf v)), Str ''...''] \<in> set (obs_effects ob))
           = (DownTimes (lv_conf v) \<le>s obs_probed ob)
       \<and> obs_before ob = lv_counter v
       \<and> (if HasPrefix (ProbeURL (lv_conf v)) ''ping ''
          then pingProbe verbose w (lv_conf v) =
                 (Return (obs_probe ob), calls_to {Ping, Http} (obs_effects ob))
               \<and> lv_conf v1 = lv_conf v
          else requestProbe w (lv_conf v) =
                 ((obs_probe ob, lv_conf v1), calls_to {Ping, Http} (obs_effects ob)))
       \<and> calls_to {Files, Ssh} (obs_effects ob) =
           (if DownTimes (lv_conf v) \<le>s obs_probed ob then snd (resetServer w (lv_conf v1)) else [])
       \<and> obs_after ob = lv_counter v1
       \<and> lv_counter v1 = (case obs_reset ob of Some (s, None) \<Rightarrow> 0 | _ \<Rightarrow> obs_probed ob)"
    by (intro exI conjI)
  note B = tick'_facts [where w=w' and conf=conf' and c=c, folded ob'_def]
  note D = tick'_calls [where w=w' and conf=conf' and c=c, folded ob'_def]
  have J: "(obs_reset ob' \<noteq> None) = (DownTimes' conf' \<le>s obs_probed ob')"
    by (subst B(4)) simp
  have Q: "request204 w' = (obs_probe ob', calls_to {Ping, Http} (obs_effects ob'))"
    by (simp add: B(2) D(1))
  from A B(3) J B(4) B(7) B(1) Q D(2) B(5) B(6) show ?thesis by (intro conjI)
qed

theorem C1_remediation_iff_threshold_reached_witness:
  "(\<exists>v1 ob. tick False world_down \<lparr>lv_conf = http_conf, lv_counter = 2, lv_err = None\<rparr> = Return (v1, ob)
      \<and> obs_probe ob = Some (errors_New ''i/o timeout'') \<and> obs_probed ob = 3 \<and> lv_counter v1 = 3
      \<and> obs_reset ob = Some ([], Some (errors_New ''connection refused''))
      \<and> calls_to {Files, Ssh} (obs_effects ob) =
          [ssh_Dial ''tcp'' ''192.168.1.1:22''
             \<lparr>User = ''admin'', Auth = [ssh_Password ''secret''], HostKeyCallback = True\<rparr>])
   \<and> (\<exists>v1 ob. tick False world_down \<lparr>lv_conf = http_conf, lv_counter = 0, lv_err = None\<rparr> = Return (v1, ob)
      \<and> obs_probed ob = 1 \<and> lv_counter v1 = 1 \<and> obs_reset ob = None
      \<and> calls_to {Files, Ssh} (obs_effects ob) = [])
   \<and> fst (tick' world_down single_conf 1) = 2
   \<and> calls_to {Files, Ssh} (obs_effects (snd (tick' world_down single_conf 1))) =
       [ssh_Dial ''tcp'' ''router.lan:22''
          \<lparr>User = ''admin'', Auth = [ssh_Password ''secret''], HostKeyCallback = True\<rparr>]
   \<and> calls_to {Files, Ssh} (obs_effects (snd (tick' world_down single_conf 0))) = []"
  using C1_remediation_iff_threshold_reached [where verbose=False and w=world_down
      and v="\<lparr>lv_conf = http_conf, lv_counter = 2, lv_err = None\<rparr>"
      and w'=world_down and conf'=single_conf and c=1]
  by (simp add: run_simps calls_to_def tick'_def request204_def resetServer'_def single_conf_def
      Generate204URL_def)

text \<open>
  C2. On every tick, whatever the counter was, a probe that returns \<open>nil\<close> sets the counter
  to 0: it is 0 after the probe step and 0 when the tick ends. \<open>obs_probe\<close> is what the
  prober called on this tick returned.
\<close>

theorem C2_success_resets_counter:
  "\<exists>v1 ob. tick verbose w v = Return (v1, ob)
     \<and> (if HasPrefix (ProbeURL (lv_conf v)) ''ping ''
        then fst (pingProbe verbose w (lv_conf v)) = Return (obs_probe ob)
        else fst (fst (requestProbe w (lv_conf v))) = obs_probe ob)
     \<and> (obs_probe ob = None \<longrightarrow> obs_probed ob = 0 \<and> obs_after ob = 0 \<and> lv_counter v1 = 0)"
proof -
  obtain v1 ob where "tick verbose w v = Return (v1, ob)"
    and "obs_probed ob = (case obs_probe ob of None \<Rightarrow> 0 | Some x \<Rightarrow> lv_counter v + 1)"
    and "obs_after ob = lv_counter v1"
    and "lv_counter v1 = (case obs_reset ob of Some (s, None) \<Rightarrow> 0 | _ \<Rightarrow> obs_probed ob)"
    and "if HasPrefix (ProbeURL (lv_conf v)) ''ping ''
         then fst (pingProbe verbose w (lv_conf v)) = Return (obs_probe ob)
         else fst (fst (requestProbe w (lv_conf v))) = obs_probe ob"
    by (rule tick_facts)
  then show ?thesis by (auto split: option.splits)
qed

theorem C2_success_resets_counter_witness:
  "\<exists>v1 ob. tick False world_up \<lparr>lv_conf = http_conf, lv_counter = 2, lv_err = None\<rparr> = Return (v1, ob)
     \<and> obs_probe ob = None \<and> obs_before ob = 2 \<and> obs_probed ob = 0 \<and> lv_counter v1 = 0"
  using C2_success_resets_counter [of False world_up "\<lparr>lv_conf = http_conf, lv_counter = 2, lv_err = None\<rparr>"]
  by (auto simp: run_simps)





text \<open>
  C5. \<open>requestProbe\<close> returns \<open>nil\<close> exactly when the request could be built and sent and
  the status of the response is 200 or 204. An error from building or sending the request
  is returned as it is, and any other status gives \<open>ErrorStatusCodeIsNot204\<close>. The client
  is the one stored in the configuration, or a new one with the configured timeout.
\<close>

theorem C5_requestProbe_200_or_204:
  fixes w conf
  defines "client \<equiv> (case httpClient conf of None \<Rightarrow> \<lparr>Client_Timeout = timeout conf\<rparr> | Some c \<Rightarrow> c)"
  defines "result \<equiv> fst (fst (requestProbe w conf))"
  shows "(result = None) =
           (on_NewRequest w ''GET'' (ProbeURL conf) = None
            \<and> (\<exists>resp. on_Do w client (ProbeURL conf) = Inr resp
                  \<and> (StatusCode resp = 200 \<or> StatusCode resp = 204)))
    \<and> (\<forall>err. on_NewRequest w ''GET'' (ProbeURL conf) = Some err \<longrightarrow> result = Some err)
    \<and> (\<forall>err. on_NewRequest w ''GET'' (ProbeURL conf) = None \<longrightarrow>
           on_Do w client (ProbeURL conf) = Inl err \<longrightarrow> result = Some err)
    \<and> (\<forall>resp. on_NewRequest w ''GET'' (ProbeURL conf) = None \<longrightarrow>
           on_Do w client (ProbeURL conf) = Inr resp \<longrightarrow>
           StatusCode resp \<noteq> 200 \<longrightarrow> StatusCode resp \<noteq> 204 \<longrightarrow>
           result = Some ErrorStatusCodeIsNot204)"
  unfolding client_def result_def
  by (auto simp: requestProbe_def MethodGet_def StatusOK_def StatusNoContent_def Let_def
      split: option.splits sum.splits)

theorem C5_requestProbe_200_or_204_witness:
  "fst (fst (requestProbe world_up http_conf)) = None
   \<and> fst (fst (requestProbe (world_up\<lparr>on_Do := (\<lambda>c u. Inr \<lparr>StatusCode = 200, Body = None\<rparr>)\<rparr>) http_conf)) = None
   \<and> fst (fst (requestProbe (world_up\<lparr>on_Do := (\<lambda>c u. Inr \<lparr>StatusCode = 500, Body = None\<rparr>)\<rparr>) http_conf))
       = Some ErrorStatusCodeIsNot204
   \<and> fst (fst (requestProbe world_down http_conf)) = Some (errors_New ''i/o timeout'')"
  using C5_requestProbe_200_or_204 [of world_up http_conf]
    C5_requestProbe_200_or_204 [of "world_up\<lparr>on_Do := (\<lambda>c u. Inr \<lparr>StatusCode = 200, Body = None\<rparr>)\<rparr>" http_conf]
    C5_requestProbe_200_or_204 [of "world_up\<lparr>on_Do := (\<lambda>c u. Inr \<lparr>StatusCode = 500, Body = None\<rparr>)\<rparr>" http_conf]
    C5_requestProbe_200_or_204 [of world_down http_conf]
  by (simp add: http_conf_def world_up_def world_reset_def world_down_def)

text \<open>
  C6. Called on a probe URL with a space in it (\<open>loopCheck\<close> calls it on the URLs
  \<open>ping <host>\<close>, and the host is then what follows \<open>ping \<close>), \<open>pingProbe\<close> runs one pinger
  on the host with \<open>Count = 3\<close> and a timeout of 5 seconds. It returns \<open>nil\<close> exactly when
  the pinger could be created and counts at least 3 replies (\<open>PacketsRecv\<close> is the
  library's count of the replies received); with fewer replies than the 3 packets, 2 for
  instance, it returns \<open>ErrorPingProbeUnfinished\<close>, "ping probe unfinished".
\<close>

theorem C6_pingProbe_all_three_replies:
  fixes verbose w conf
  defines "host \<equiv> SplitN (ProbeURL conf) '' '' 2 ! 1"
  defines "pinger \<equiv>
     \<lparr>Pinger_addr = host, Pinger_privileged = True, Pinger_Count = 3,
      Pinger_Timeout = 5 * Second, Pinger_OnRecv = verbose, Pinger_OnFinish = verbose,
      PacketsRecv = 0\<rparr>"
  assumes P: "CHR '' '' \<in> set (ProbeURL conf)"
  shows "(\<forall>p. pinger_Run p \<in> set (snd (pingProbe verbose w conf)) \<longrightarrow>
            p = pinger \<and> Pinger_Count p = 3 \<and> sint (Pinger_Timeout p) = 5 * 1000000000)
    \<and> (on_NewPinger w host = None \<longrightarrow> pinger_Run pinger \<in> set (snd (pingProbe verbose w conf)))
    \<and> (fst (pingProbe verbose w conf) = Return None) =
        (on_NewPinger w host = None \<and> 3 \<le> sint (on_PingerRun w pinger))
    \<and> (on_NewPinger w host = None \<longrightarrow> sint (on_PingerRun w pinger) < 3 \<longrightarrow>
          fst (pingProbe verbose w conf) = Return (Some ErrorPingProbeUnfinished))
    \<and> (\<forall>err. on_NewPinger w host = Some err \<longrightarrow>
          fst (pingProbe verbose w conf) = Return (Some err))
    \<and> (HasPrefix (ProbeURL conf) ''ping '' \<longrightarrow> host = drop 5 (ProbeURL conf))"
proof -
  have "HasPrefix (ProbeURL conf) ''ping '' \<longrightarrow> host = drop 5 (ProbeURL conf)"
    by (simp add: host_def SplitN_ping)
  then show ?thesis
    unfolding pingProbe_split [OF P] host_def pinger_def
    by (auto simp: Second_def word_sless_alt split: option.splits)
qed

theorem C6_pingProbe_all_three_replies_witness:
  "CHR '' '' \<in> set (ProbeURL ping_conf)
   \<and> on_PingerRun world_down
        \<lparr>Pinger_addr = ''10.0.0.1'', Pinger_privileged = True, Pinger_Count = 3,
         Pinger_Timeout = 5 * Second, Pinger_OnRecv = False, Pinger_OnFinish = False,
         PacketsRecv = 0\<rparr> = 2
   \<and> fst (pingProbe False world_down ping_conf) = Return (Some ErrorPingProbeUnfinished)
   \<and> pinger_Run
        \<lparr>Pinger_addr = ''10.0.0.1'', Pinger_privileged = True, Pinger_Count = 3,
         Pinger_Timeout = 5 * Second, Pinger_OnRecv = False, Pinger_OnFinish = False,
         PacketsRecv = 0\<rparr>
       \<in> set (snd (pingProbe False world_down ping_conf))
   \<and> fst (pingProbe False world_up ping_conf) = Return None"
proof -
  have P: "CHR '' '' \<in> set (ProbeURL ping_conf)"
    by (simp add: ping_conf_def)
  have H: "SplitN (ProbeURL ping_conf) '' '' 2 ! 1 = ''10.0.0.1''"
    by (simp add: ping_conf_def numeral_2_eq_2 HasPrefix_def)
  from C6_pingProbe_all_three_replies [OF P, of False world_down]
    C6_pingProbe_all_three_replies [OF P, of False world_up] P
  show ?thesis
    unfolding H by (simp add: world_up_def world_reset_def world_down_def)
qed

text \<open>
  C7. Whenever \<open>resetServer\<close> dials, it dials over \<open>tcp\<close> the configured host name as it is
  when it contains a colon, and the host name followed by \<open>:22\<close> when it contains none. It
  dials exactly when the authentication methods could be prepared: no key file is
  configured, or the key file could be read and parsed. \<open>resetServer'\<close> of \<open>main.go\<close>, which
  has no key file, always dials, the same address.
\<close>

theorem C7_resetServer_default_port:
  fixes w conf w' conf'
  defines "h \<equiv> Hostname (Server conf)"
  defines "h' \<equiv> Hostname' (Server' conf')"
  shows "(\<forall>n a c. ssh_Dial n a c \<in> set (snd (resetServer w conf)) \<longrightarrow>
            n = ''tcp'' \<and> a = (if CHR '':'' \<in> set h then h else h @ '':22''))
    \<and> (\<exists>c. ssh_Dial ''tcp'' (if CHR '':'' \<in> set h then h else h @ '':22'') c
              \<in> set (snd (resetServer w conf)))
        = (KeyFile (Server conf) = []
           \<or> (\<exists>k. fst (PublicKeyFile w (KeyFile (Server conf))) = Inr k))
    \<and> (\<forall>n a c. ssh_Dial n a c \<in> set (snd (resetServer' w' conf')) \<longrightarrow>
            n = ''tcp'' \<and> a = (if CHR '':'' \<in> set h' then h' else h' @ '':22''))
    \<and> (\<exists>c. ssh_Dial ''tcp'' (if CHR '':'' \<in> set h' then h' else h' @ '':22'') c
              \<in> set (snd (resetServer' w' conf')))"
proof -
  let ?pkf = "PublicKeyFile w (KeyFile (Server conf))"
  let ?addr = "if CHR '':'' \<in> set h then h else h @ '':22''"
  have K: "ssh_Dial n a c \<notin> set (snd ?pkf)" for n a c
    using PublicKeyFile_effects [of w "KeyFile (Server conf)"] by auto
  have A: "(\<forall>n a c. ssh_Dial n a c \<in> set (snd (resetServer w conf)) \<longrightarrow> n = ''tcp'' \<and> a = ?addr)
    \<and> (\<exists>c. ssh_Dial ''tcp'' ?addr c \<in> set (snd (resetServer w conf)))
        = (KeyFile (Server conf) = [] \<or> (\<exists>k. fst ?pkf = Inr k))"
  proof (cases "KeyFile (Server conf) \<noteq> [] \<and> (\<exists>err. fst ?pkf = Inl err)")
    case True
    then obtain err where E: "KeyFile (Server conf) \<noteq> []" "fst ?pkf = Inl err" by (elim conjE exE)
    from resetServer_key_fails [OF E] K E show ?thesis by simp
  next
    case False
    then obtain k where D: "KeyFile (Server conf) = [] \<or> fst ?pkf = Inr k"
      by (cases "fst ?pkf") auto
    from resetServer_dials [OF D, folded h_def] obtain config rest where
      S: "snd (resetServer w conf) =
           (if KeyFile (Server conf) = [] then [] else snd ?pkf) @ ssh_Dial ''tcp'' ?addr config # rest"
      and R: "set rest \<subseteq> {client_NewSession, session_Run (ResetCommand (Server conf)), session_Close}"
      by (elim exE conjE) (rule that)
    from R have "ssh_Dial n a c \<notin> set rest" for n a c by auto
    with D K show ?thesis
      unfolding S by (auto split: if_splits)
  qed
  from resetServer'_dials [where w=w' and conf=conf', folded h'_def] obtain config rest where
    S: "snd (resetServer' w' conf') =
          ssh_Dial ''tcp'' (if CHR '':'' \<in> set h' then h' else h' @ '':22'') config # rest"
    and R: "set rest \<subseteq> {client_NewSession, session_Run (ResetCommand' (Server' conf')), session_Close}"
    by (elim exE conjE) (rule that)
  from R have "ssh_Dial n a c \<notin> set rest" for n a c by auto
  then have B: "(\<forall>n a c. ssh_Dial n a c \<in> set (snd (resetServer' w' conf')) \<longrightarrow>
            n = ''tcp'' \<and> a = (if CHR '':'' \<in> set h' then h' else h' @ '':22''))
    \<and> (\<exists>c. ssh_Dial ''tcp'' (if CHR '':'' \<in> set h' then h' else h' @ '':22'') c
              \<in> set (snd (resetServer' w' conf')))"
    unfolding S by auto
  from A B show ?thesis by (intro conjI) (elim conjE, assumption)+
qed

theorem C7_resetServer_default_port_witness:
  "(\<exists>c. ssh_Dial ''tcp'' ''192.168.1.1:22'' c \<in> set (snd (resetServer world_reset http_conf)))
   \<and> (\<exists>c. ssh_Dial ''tcp'' ''gw.example.org:2222'' c \<in> set (snd (resetServer world_reset ping_conf)))
   \<and> \<not> (\<exists>c. ssh_Dial ''tcp'' ''192.168.1.1'' c \<in> set (snd (resetServer world_reset http_conf)))
   \<and> \<not> (\<exists>c. ssh_Dial ''tcp'' ''gw.example.org:2222:22'' c \<in> set (snd (resetServer world_reset ping_conf)))
   \<and> (\<exists>c. ssh_Dial ''tcp'' ''router.lan:22'' c \<in> set (snd (resetServer' world_reset single_conf)))"
proof -
  note A = C7_resetServer_default_port [of world_reset http_conf world_reset single_conf]
  note B = C7_resetServer_default_port [of world_reset ping_conf world_reset single_conf]
  note A1 = A [THEN conjunct1] and A2 = A [THEN conjunct2, THEN conjunct1]
    and A4 = A [THEN conjunct2, THEN conjunct2, THEN conjunct2]
  note B1 = B [THEN conjunct1] and B2 = B [THEN conjunct2, THEN conjunct1]
  have H: "Hostname (Server http_conf) = ''192.168.1.1''" "KeyFile (Server http_conf) = []"
    by (simp_all add: http_conf_def)
  have G: "Hostname (Server ping_conf) = ''gw.example.org:2222''"
    "fst (PublicKeyFile world_reset (KeyFile (Server ping_conf))) = Inr (ssh_PublicKeys ''key'')"
    by (simp_all add: ping_conf_def PublicKeyFile_def world_reset_def world_down_def)
  have J: "Hostname' (Server' single_conf) = ''router.lan''"
    by (simp add: single_conf_def)
  from A2 have "\<exists>c. ssh_Dial ''tcp'' ''192.168.1.1:22'' c \<in> set (snd (resetServer world_reset http_conf))"
    by (simp add: H)
  moreover from B2 have "\<exists>c. ssh_Dial ''tcp'' ''gw.example.org:2222'' c \<in> set (snd (resetServer world_reset ping_conf))"
    by (simp add: G)
  moreover from A1 have "\<not> (\<exists>c. ssh_Dial ''tcp'' ''192.168.1.1'' c \<in> set (snd (resetServer world_reset http_conf)))"
    unfolding H by fastforce
  moreover from B1 have "\<not> (\<exists>c. ssh_Dial ''tcp'' ''gw.example.org:2222:22'' c \<in> set (snd (resetServer world_reset ping_conf)))"
    unfolding G by fastforce
  moreover from A4 have "\<exists>c. ssh_Dial ''tcp'' ''router.lan:22'' c \<in> set (snd (resetServer' world_reset single_conf))"
    by (simp add: J)
  ultimately show ?thesis by (intro conjI)
qed

text \<open>
  C8. A probe never ends the program: the choice and call of the prober always returns,
  with \<open>nil\<close> or with an error that the tick folds into the counter; every tick returns,
  and so does the loop on every sequence of ticks. The monitor panics only when it is
  started with an interval that is not positive, a fault of the configuration, before
  its first tick. \<open>main\<close> starts the monitors only for a configuration with at least one
  probe and positive thresholds.
\<close>

theorem C8_probe_failures_never_fatal:
  "(\<exists>p e conf1 fx. probeStep verbose w conf = Return (p, e, conf1, fx))
   \<and> (\<exists>v1 ob. tick verbose w v = Return (v1, ob)
         \<and> obs_probed ob = (case obs_probe ob of None \<Rightarrow> 0 | Some x \<Rightarrow> lv_counter v + 1))
   \<and> (\<exists>st v1 obs. loop verbose v cs = Return (st, v1, obs))
   \<and> (\<exists>m. loopCheck verbose conf cs = Panic m) = (interval conf \<le>s 0)
   \<and> (\<forall>ps. main su = Monitoring ps \<longrightarrow> ps \<noteq> [] \<and> (\<forall>p \<in> set ps. 0 <s DownTimes p))"
proof -
  have "\<exists>p e conf1 fx. probeStep verbose w conf = Return (p, e, conf1, fx)"
    using probeStep_Return [of verbose w conf] by (elim exE conjE) (intro exI)
  moreover have "\<exists>v1 ob. tick verbose w v = Return (v1, ob)
         \<and> obs_probed ob = (case obs_probe ob of None \<Rightarrow> 0 | Some x \<Rightarrow> lv_counter v + 1)"
  proof -
    obtain v1 ob where "tick verbose w v = Return (v1, ob)"
      and "obs_probed ob = (case obs_probe ob of None \<Rightarrow> 0 | Some x \<Rightarrow> lv_counter v + 1)"
      by (rule tick_facts)
    then show ?thesis by (intro exI conjI)
  qed
  moreover have "\<exists>st v1 obs. loop verbose v cs = Return (st, v1, obs)"
    by (rule loop_returns)
  moreover have "(\<exists>m. loopCheck verbose conf cs = Panic m) = (interval conf \<le>s 0)"
    using loop_returns [of verbose "\<lparr>lv_conf = conf, lv_counter = 0, lv_err = None\<rparr>" cs]
    by (auto simp: loopCheck_def)
  moreover have "\<forall>ps. main su = Monitoring ps \<longrightarrow> ps \<noteq> [] \<and> (\<forall>p \<in> set ps. 0 <s DownTimes p)"
    using main_Monitoring by blast
  ultimately show ?thesis by (intro conjI)
qed

theorem C8_probe_failures_never_fatal_witness:
  "main two_targets = Monitoring [http_conf\<lparr>Name := ''192.168.1.1''\<rparr>, ping_conf]
   \<and> 0 <s DownTimes (http_conf\<lparr>Name := ''192.168.1.1''\<rparr>) \<and> 0 <s DownTimes ping_conf
   \<and> \<not> interval http_conf \<le>s 0
   \<and> (\<exists>st v obs. loopCheck False http_conf outage = Return (st, v, obs))"
  using C8_probe_failures_never_fatal [of False world_down http_conf
      "\<lparr>lv_conf = http_conf, lv_counter = 0, lv_err = None\<rparr>" outage two_targets]
    two_targets_start outage_run
  by auto

text \<open>
  C9. When the \<open>select\<close> takes the stop channel, the loop exits at once: a run whose
  cases are the ticks \<open>ws\<close>, then the stop, then anything at all, ends \<open>Exited\<close> with
  exactly the state and the ticks of \<open>ws\<close>. Whatever comes after the stop is not
  processed: no probe and no remediation.
\<close>

theorem C9_no_tick_after_stop:
  assumes "0 <s interval conf"
  shows "\<exists>v obs. loopCheck verbose conf (map ticker_C ws @ stopCh # rest) = Return (Exited, v, obs)
           \<and> length obs = length ws
           \<and> loopCheck verbose conf (map ticker_C ws) = Return (Running, v, obs)
           \<and> loopCheck verbose conf (map ticker_C ws @ [stopCh]) = Return (Exited, v, obs)"
proof -
  let ?v0 = "\<lparr>lv_conf = conf, lv_counter = 0, lv_err = None\<rparr>"
  from assms have I: "\<not> interval conf \<le>s 0"
    by (simp add: sless_iff_not_sle)
  from loop_ticks [of verbose ?v0 ws rest] obtain v obs where
    A: "loop verbose ?v0 (map ticker_C ws) = Return (Running, v, obs)" "length obs = length ws"
      "loop verbose ?v0 (map ticker_C ws @ stopCh # rest) = Return (Exited, v, obs)"
    by (elim exE conjE) (rule that)
  from loop_ticks [of verbose ?v0 ws "[]"] A(1) have
    "loop verbose ?v0 (map ticker_C ws @ [stopCh]) = Return (Exited, v, obs)"
    by auto
  with A I show ?thesis by (simp add: loopCheck_def)
qed

theorem C9_no_tick_after_stop_witness:
  "0 <s interval http_conf
   \<and> outage = map ticker_C [world_down, world_down, world_down, world_down, world_reset, world_up]
               @ stopCh # [ticker_C world_down]
   \<and> (\<exists>v obs. loopCheck False http_conf outage = Return (Exited, v, obs) \<and> length obs = 6)"
proof -
  have I: "0 <s interval http_conf"
    by (simp add: http_conf_def Second_def word_sless_alt)
  have O: "outage = map ticker_C [world_down, world_down, world_down, world_down, world_reset, world_up]
               @ stopCh # [ticker_C world_down]"
    by (simp add: outage_def)
  from C9_no_tick_after_stop [OF I, of False
      "[world_down, world_down, world_down, world_down, world_reset, world_up]" "[ticker_C world_down]"]
  have "\<exists>v obs. loopCheck False http_conf outage = Return (Exited, v, obs) \<and> length obs = 6"
    unfolding O [symmetric] by auto
  with I O show ?thesis by (intro conjI)
qed

text \<open>
  C10. On every tick the prober is chosen by the prefix of the probe URL: \<open>pingProbe\<close> is
  called if and only if the URL starts with \<open>ping \<close>, and \<open>requestProbe\<close> otherwise. The
  result of the probe step is the result of the prober chosen, and the tick calls the ping
  library in the first case only and the HTTP library in the second case only.
\<close>

theorem C10_prober_chosen_by_prefix:
  "\<exists>v1 ob. tick verbose w v = Return (v1, ob)
     \<and> (obs_prober ob = ICMP) = HasPrefix (ProbeURL (lv_conf v)) ''ping ''
     \<and> (obs_prober ob = HTTP) = (\<not> HasPrefix (ProbeURL (lv_conf v)) ''ping '')
     \<and> (if HasPrefix (ProbeURL (lv_conf v)) ''ping ''
        then fst (pingProbe verbose w (lv_conf v)) = Return (obs_probe ob)
        else fst (fst (requestProbe w (lv_conf v))) = obs_probe ob)
     \<and> (Ping \<in> library_of ` set (obs_effects ob)) = HasPrefix (ProbeURL (lv_conf v)) ''ping ''
     \<and> (Http \<in> library_of ` set (obs_effects ob)) = (\<not> HasPrefix (ProbeURL (lv_conf v)) ''ping '')"
proof -
  obtain v1 ob where "tick verbose w v = Return (v1, ob)"
    and "obs_prober ob = (if HasPrefix (ProbeURL (lv_conf v)) ''ping '' then ICMP else HTTP)"
    and "if HasPrefix (ProbeURL (lv_conf v)) ''ping ''
         then fst (pingProbe verbose w (lv_conf v)) = Return (obs_probe ob)
         else fst (fst (requestProbe w (lv_conf v))) = obs_probe ob"
    and "(Ping \<in> library_of ` set (obs_effects ob)) = HasPrefix (ProbeURL (lv_conf v)) ''ping ''"
    and "(Http \<in> library_of ` set (obs_effects ob)) = (\<not> HasPrefix (ProbeURL (lv_conf v)) ''ping '')"
    by (rule tick_facts)
  then show ?thesis by (cases "HasPrefix (ProbeURL (lv_conf v)) ''ping ''") simp_all
qed

end
